theory Spec2Isabelle
  imports Main "HOL-Library.Word"
begin

unbundle bit_operations_syntax

section \<open>The shared-buffer core of drivers/dma-buf/dma-buf.c\<close>

text \<open>
  The C functions are embedded as HOL functions with explicit state passing.
  \<^item> A C struct is a record with the fields the modelled functions read or write.
  \<^item> A pointer the source tests against NULL is an \<open>option\<close>; a function
    pointer is an optional function, and a call through a NULL function pointer is the
    fault \<open>NULL_CALL\<close>. \<open>BUG_ON\<close> is the fault \<open>BUG\<close>. The console
    message of \<open>WARN_ON\<close> is not modelled, only the branch it guards.
  \<^item> Exporter hooks act on the exporter's private data (\<open>dmabuf->priv\<close>, type
    \<open>'x\<close>), importer hooks on the importer's (\<open>attach->importer_priv\<close>, type
    \<open>'y\<close>) and on nothing else. The calls of hooks, and of the kernel services a
    property speaks about, are written to the list of events the function returns, in
    call order.
  \<^item> What the rest of the kernel decides (an allocation failing, a signal arriving
    during a sleep) is an argument of the function.
  \<^item> The reservation lock serialises the modelled functions; each runs atomically,
    and \<open>dma_resv_lock\<close>, \<open>dma_resv_assert_held\<close> and \<open>might_sleep\<close> are not
    modelled.
\<close>

subsection \<open>Error numbers, pointers, faults, configuration\<close>

text \<open>
  Modelled from the spec: the error numbers are constants of the errno headers, which are
  not among the sources. The spec names the errors (not-found, resource-exhausted,
  busy, invalid-argument, interrupted); the values are the kernel's.
\<close>

definition ENOENT :: int where "ENOENT = 2"
definition ENOMEM :: int where "ENOMEM = 12"
definition EFAULT :: int where "EFAULT = 14"
definition EBUSY :: int where "EBUSY = 16"
definition EINVAL :: int where "EINVAL = 22"
definition EOVERFLOW :: int where "EOVERFLOW = 75"
definition ERESTARTSYS :: int where "ERESTARTSYS = 512"

text \<open>\<open>MAX_SCHEDULE_TIMEOUT\<close> is \<open>LONG_MAX\<close>: sleep without a time limit.\<close>

definition MAX_SCHEDULE_TIMEOUT :: int where "MAX_SCHEDULE_TIMEOUT = 2 ^ 63 - 1"

text \<open>
  A pointer result that may carry an error: \<open>PTR x\<close> points to the object
  \<open>x\<close>; \<open>ERR_PTR e\<close> is the pointer \<open>(void *)e\<close>, which points to no
  object; \<open>NULL\<close> is the null pointer, and so is \<open>ERR_PTR 0\<close>.
\<close>

datatype 'a ptr = NULL | ERR_PTR int | PTR 'a

text \<open>The test \<open>!p\<close> of a pointer.\<close>

fun ptr_is_null :: "'a ptr \<Rightarrow> bool" where
  "ptr_is_null NULL = True"
| "ptr_is_null (ERR_PTR e) = (e = 0)"
| "ptr_is_null (PTR x) = False"

text \<open>
  Modelled from the spec: \<open>IS_ERR\<close> and \<open>MAX_ERRNO\<close> are of
  \<open>include/linux/err.h\<close>, which is not among the sources. \<open>IS_ERR(p)\<close> is
  \<open>(unsigned long)p >= (unsigned long)-MAX_ERRNO\<close>: the error pointers are the values
  from \<open>-MAX_ERRNO\<close> to \<open>-1\<close>, and no other pointer is one.
\<close>

definition MAX_ERRNO :: int where "MAX_ERRNO = 4095"

fun IS_ERR :: "'a ptr \<Rightarrow> bool" where
  "IS_ERR (ERR_PTR e) = (- MAX_ERRNO \<le> e \<and> e < 0)"
| "IS_ERR NULL = False"
| "IS_ERR (PTR x) = False"

text \<open>
  \<open>BAD_POINTER\<close> is the fault of reading through a pointer that is not NULL, not an
  error pointer, and points to no object.
\<close>

datatype fault = BUG | NULL_CALL | BAD_POINTER

record config =
  CONFIG_DMABUF_MOVE_NOTIFY :: bool
  CONFIG_DMABUF_DEBUG :: bool
  CONFIG_DMA_API_DEBUG :: bool

text \<open>
  Modelled from the spec: the page size is a constant of the architecture headers, which
  are not among the sources; the spec's scenario takes a 4096-byte buffer as one page.
\<close>

definition PAGE_SHIFT :: nat where "PAGE_SHIFT = 12"

definition PAGE_SIZE :: "64 word" where "PAGE_SIZE = push_bit PAGE_SHIFT 1"

definition PAGE_ALIGNED :: "64 word \<Rightarrow> bool" where
  "PAGE_ALIGNED x = (x AND (PAGE_SIZE - 1) = 0)"

datatype dma_data_direction =
  DMA_BIDIRECTIONAL | DMA_TO_DEVICE | DMA_FROM_DEVICE | DMA_NONE

subsection \<open>Fences and the reservation object\<close>

text \<open>
  Modelled from the spec: the reservation object and the fence primitive live in
  dma-resv.c and dma-fence.c, which are not among the sources. The spec's SyncSet holds
  fences tagged by usage; the source names the usage classes \<open>KERNEL\<close>, \<open>WRITE\<close>
  and \<open>READ\<close>. A query for a usage class covers the fences tagged with that class
  and with every class before it, so a query for \<open>READ\<close> covers every fence
  ("read-usage completion implies completion of every fence regardless of tag").
\<close>

datatype dma_resv_usage =
  DMA_RESV_USAGE_KERNEL | DMA_RESV_USAGE_WRITE | DMA_RESV_USAGE_READ

fun usage_rank :: "dma_resv_usage \<Rightarrow> nat" where
  "usage_rank DMA_RESV_USAGE_KERNEL = 0"
| "usage_rank DMA_RESV_USAGE_WRITE = 1"
| "usage_rank DMA_RESV_USAGE_READ = 2"

definition usage_covers :: "dma_resv_usage \<Rightarrow> dma_resv_usage \<Rightarrow> bool" where
  "usage_covers query tag = (usage_rank tag \<le> usage_rank query)"

text \<open>
  Modelled from the spec: \<open>dma_resv_usage_rw\<close> is an inline function of
  dma-resv.h. "Write-direction implies read-write usage": a writer has to wait for
  readers and writers (a \<open>READ\<close> query), a reader only for writers (a \<open>WRITE\<close>
  query).
\<close>

definition dma_resv_usage_rw :: "bool \<Rightarrow> dma_resv_usage" where
  "dma_resv_usage_rw write =
     (if write then DMA_RESV_USAGE_READ else DMA_RESV_USAGE_WRITE)"

text \<open>The two callback slots of a buffer: \<open>dmabuf->cb_in\<close> and \<open>dmabuf->cb_out\<close>.\<close>

datatype poll_slot = CB_IN | CB_OUT

text \<open>
  A fence: its identity, whether it has signalled, and the poll callbacks of this buffer
  that are registered on it.
\<close>

record dma_fence =
  seqno :: nat
  signaled :: bool
  cb_list :: "poll_slot list"

record dma_resv =
  fences :: "(dma_fence \<times> dma_resv_usage) list"
  max_fences :: nat

subsection \<open>Scatterlists, kernel mappings, user mappings\<close>

record scatterlist =
  page_link :: "64 word"
  dma_address :: "64 word"
  dma_length :: "32 word"

record sg_table =
  sgl :: "scatterlist list"
  nents :: nat
  orig_nents :: nat

text \<open>
  Modelled from the spec: \<open>struct iosys_map\<close> and its helpers are in iosys-map.h,
  not among the sources. The "stored kernel-mapping pointer" is an address (0 is NULL)
  with a flag for I/O memory; it is set when the address is not NULL, and clearing it
  stores NULL and resets the flag.
\<close>

record iosys_map =
  vaddr :: "64 word"
  is_iomem :: bool

definition iosys_map_is_null :: "iosys_map \<Rightarrow> bool" where
  "iosys_map_is_null m = (vaddr m = 0)"

definition iosys_map_is_set :: "iosys_map \<Rightarrow> bool" where
  "iosys_map_is_set m = (\<not> iosys_map_is_null m)"

definition iosys_map_clear :: "iosys_map \<Rightarrow> iosys_map" where
  "iosys_map_clear m = m\<lparr>vaddr := 0, is_iomem := False\<rparr>"

definition iosys_map_is_equal :: "iosys_map \<Rightarrow> iosys_map \<Rightarrow> bool" where
  "iosys_map_is_equal a b = (is_iomem a = is_iomem b \<and> vaddr a = vaddr b)"

record vm_area_struct =
  vm_start :: "64 word"
  vm_end :: "64 word"
  vm_pgoff :: "64 word"

text \<open>
  Modelled from the spec: \<open>vma_pages\<close> is an inline function of mm.h, not among the
  sources; it is the number of pages the mapping request spans.
\<close>

definition vma_pages :: "vm_area_struct \<Rightarrow> 64 word" where
  "vma_pages vma = drop_bit PAGE_SHIFT (vm_end vma - vm_start vma)"

subsection \<open>Events\<close>

datatype event =
    Ev_attach nat
  | Ev_pin nat
  | Ev_unpin nat
  | Ev_map_dma_buf nat dma_data_direction
  | Ev_unmap_dma_buf nat "sg_table ptr" dma_data_direction
  | Ev_begin_cpu_access dma_data_direction
  | Ev_mmap vm_area_struct
  | Ev_vmap
  | Ev_vunmap iosys_map
  | Ev_move_notify nat
  | Ev_dma_resv_wait_timeout dma_resv_usage bool int
  | Ev_pr_debug "64 word" "32 word"
  | Ev_try_module_get nat
  | Ev_module_put nat
  | Ev_alloc_anon_inode
  | Ev_iput
  | Ev_alloc_file_pseudo
  | Ev_fput
  | Ev_kzalloc
  | Ev_kfree
  | Ev_dma_resv_init
  | Ev_dma_resv_fini
  | Ev_dma_buf_stats_setup

subsection \<open>Exporter and importer operations, attachments, buffers\<close>

text \<open>
  \<open>struct dma_buf_ops\<close>. An attachment is passed to a hook as its address; the
  buffer argument of a hook is the private data the hook works on.
\<close>

record 'x dma_buf_ops =
  attach :: "(nat \<Rightarrow> 'x \<Rightarrow> int \<times> 'x) option"
  pin :: "(nat \<Rightarrow> 'x \<Rightarrow> int \<times> 'x) option"
  unpin :: "(nat \<Rightarrow> 'x \<Rightarrow> 'x) option"
  map_dma_buf :: "(nat \<Rightarrow> dma_data_direction \<Rightarrow> 'x \<Rightarrow> sg_table ptr \<times> 'x) option"
  unmap_dma_buf :: "(nat \<Rightarrow> sg_table ptr \<Rightarrow> dma_data_direction \<Rightarrow> 'x \<Rightarrow> 'x) option"
  release :: "('x \<Rightarrow> 'x) option"
  begin_cpu_access :: "(dma_data_direction \<Rightarrow> 'x \<Rightarrow> int \<times> 'x) option"
  mmap :: "(vm_area_struct \<Rightarrow> 'x \<Rightarrow> int \<times> 'x) option"
  vmap :: "('x \<Rightarrow> (int \<times> iosys_map) \<times> 'x) option"
  vunmap :: "(iosys_map \<Rightarrow> 'x \<Rightarrow> 'x) option"

record 'y dma_buf_attach_ops =
  allow_peer2peer :: bool
  move_notify :: "(nat \<Rightarrow> 'y \<Rightarrow> 'y) option"

text \<open>
  \<open>struct dma_buf_attachment\<close>; \<open>node\<close> is the address of the attachment, its
  identity in the buffer's list. The back pointer \<open>attach->dmabuf\<close> is an argument
  of the functions that follow it.
\<close>

record 'y dma_buf_attachment =
  node :: nat
  dev :: nat
  peer2peer :: bool
  importer_ops :: "'y dma_buf_attach_ops option"
  importer_priv :: "'y option"

text \<open>The anonymous file of a buffer (\<open>dmabuf->file\<close>) with its reference count.\<close>

record anon_file =
  f_flags :: "32 word"
  i_size :: "64 word"
  i_ino :: "64 word"
  f_count :: nat

text \<open>
  \<open>struct dma_buf\<close>. \<open>cb_in_active\<close> and \<open>cb_out_active\<close> are
  \<open>cb_in.active\<close> and \<open>cb_out.active\<close>; \<open>woken\<close> lists the keys of the
  wake-ups sent to the buffer's wait queue \<open>poll\<close>. \<open>resv\<close> is never NULL once
  \<open>dma_buf_export\<close> has stored it, so it is not optional here.
\<close>

record ('x, 'y) dma_buf =
  buf_size :: "64 word"
  buf_file :: anon_file
  attachments :: "'y dma_buf_attachment list"
  ops :: "'x dma_buf_ops"
  vmapping_counter :: "32 word"
  vmap_ptr :: iosys_map
  exp_name :: string
  owner :: nat
  priv :: 'x
  resv :: dma_resv
  woken :: "32 word list"
  cb_in_active :: "32 word"
  cb_out_active :: "32 word"

subsection \<open>Host mmap: \<open>dma_buf_mmap_internal\<close> and \<open>dma_buf_mmap\<close>\<close>

datatype file_operations = Dma_buf_fops | Other_fops

definition is_dma_buf_file :: "file_operations \<Rightarrow> bool" where
  "is_dma_buf_file f_op = (f_op = Dma_buf_fops)"

text \<open>
  \<open>dma_buf_mmap_internal file vma\<close>: the \<open>mmap\<close> file operation. The file is
  given by its operations table and its \<open>private_data\<close>, which
  \<open>dma_buf_export\<close> points at the buffer. All arithmetic is on
  \<open>unsigned long\<close>.
\<close>

definition dma_buf_mmap_internal ::
  "file_operations \<Rightarrow> ('x, 'y) dma_buf \<Rightarrow> vm_area_struct
     \<Rightarrow> int \<times> ('x, 'y) dma_buf \<times> event list" where
  "dma_buf_mmap_internal f_op dmabuf vma =
     (if \<not> is_dma_buf_file f_op then (- EINVAL, dmabuf, [])
      else case mmap (ops dmabuf) of
        None \<Rightarrow> (- EINVAL, dmabuf, [])
      | Some hook \<Rightarrow>
          if vm_pgoff vma + vma_pages vma > drop_bit PAGE_SHIFT (buf_size dmabuf)
          then (- EINVAL, dmabuf, [])
          else (let (ret, x) = hook vma (priv dmabuf)
                in (ret, dmabuf\<lparr>priv := x\<rparr>, [Ev_mmap vma])))"

text \<open>
  \<open>dma_buf_mmap dmabuf vma pgoff\<close>: the exported variant. \<open>vma_set_file\<close>
  redirects the area to the buffer's file, which has no effect on the modelled fields.
\<close>

definition dma_buf_mmap ::
  "('x, 'y) dma_buf option \<Rightarrow> vm_area_struct option \<Rightarrow> 64 word
     \<Rightarrow> int \<times> ('x, 'y) dma_buf option \<times> event list" where
  "dma_buf_mmap dmabuf_p vma_p pgoff =
     (case (dmabuf_p, vma_p) of
        (Some dmabuf, Some vma) \<Rightarrow>
          (case mmap (ops dmabuf) of
             None \<Rightarrow> (- EINVAL, dmabuf_p, [])
           | Some hook \<Rightarrow>
               if pgoff + vma_pages vma < pgoff then (- EOVERFLOW, dmabuf_p, [])
               else if pgoff + vma_pages vma > drop_bit PAGE_SHIFT (buf_size dmabuf)
               then (- EINVAL, dmabuf_p, [])
               else (let vma' = vma\<lparr>vm_pgoff := pgoff\<rparr>;
                         (ret, x) = hook vma' (priv dmabuf)
                     in (ret, Some (dmabuf\<lparr>priv := x\<rparr>), [Ev_mmap vma'])))
      | _ \<Rightarrow> (- EINVAL, dmabuf_p, []))"

subsection \<open>Fence completion and \<open>dma_resv_wait_timeout\<close>\<close>

definition slot_active :: "poll_slot \<Rightarrow> ('x, 'y) dma_buf \<Rightarrow> 32 word" where
  "slot_active dcb b = (case dcb of CB_IN \<Rightarrow> cb_in_active b | CB_OUT \<Rightarrow> cb_out_active b)"

definition set_slot_active ::
  "poll_slot \<Rightarrow> 32 word \<Rightarrow> ('x, 'y) dma_buf \<Rightarrow> ('x, 'y) dma_buf" where
  "set_slot_active dcb v b =
     (case dcb of CB_IN \<Rightarrow> b\<lparr>cb_in_active := v\<rparr> | CB_OUT \<Rightarrow> b\<lparr>cb_out_active := v\<rparr>)"

text \<open>
  \<open>get_file\<close> and \<open>fput\<close> on \<open>dmabuf->file\<close>. The release of the buffer by
  the last \<open>fput\<close> is not part of this model; a callback drops the reference that
  was taken when it was armed.
\<close>

definition get_file :: "('x, 'y) dma_buf \<Rightarrow> ('x, 'y) dma_buf" where
  "get_file b = b\<lparr>buf_file := (buf_file b)\<lparr>f_count := Suc (f_count (buf_file b))\<rparr>\<rparr>"

definition fput :: "('x, 'y) dma_buf \<Rightarrow> ('x, 'y) dma_buf" where
  "fput b = b\<lparr>buf_file := (buf_file b)\<lparr>f_count := f_count (buf_file b) - 1\<rparr>\<rparr>"

text \<open>
  \<open>dma_buf_poll_cb\<close>, the fence callback of both slots: wake the waiters with the
  slot's event mask as key, mark the slot idle, drop the file reference taken when the
  callback was armed.
\<close>

definition dma_buf_poll_cb :: "poll_slot \<Rightarrow> ('x, 'y) dma_buf \<Rightarrow> ('x, 'y) dma_buf" where
  "dma_buf_poll_cb dcb b =
     fput (set_slot_active dcb 0 (b\<lparr>woken := woken b @ [slot_active dcb b]\<rparr>))"

text \<open>
  Modelled from the spec: a fence "supports attaching a completion callback". When a
  fence signals, it is marked signalled and the callbacks registered on it are taken off
  it and run, once each. \<open>dma_fence_signal_where P\<close> signals the pending fences
  that satisfy \<open>P\<close> and returns the callbacks to run.
\<close>

fun dma_fence_signal_where ::
  "(dma_fence \<Rightarrow> dma_resv_usage \<Rightarrow> bool) \<Rightarrow> (dma_fence \<times> dma_resv_usage) list
     \<Rightarrow> (dma_fence \<times> dma_resv_usage) list \<times> poll_slot list" where
  "dma_fence_signal_where P [] = ([], [])"
| "dma_fence_signal_where P ((f, u) # fs) =
     (let (fs', cbs) = dma_fence_signal_where P fs
      in if P f u \<and> \<not> signaled f
         then ((f\<lparr>signaled := True, cb_list := []\<rparr>, u) # fs', cb_list f @ cbs)
         else ((f, u) # fs', cbs))"

definition fences_signal ::
  "(dma_fence \<Rightarrow> dma_resv_usage \<Rightarrow> bool) \<Rightarrow> ('x, 'y) dma_buf \<Rightarrow> ('x, 'y) dma_buf" where
  "fences_signal P b =
     (let (fs, cbs) = dma_fence_signal_where P (fences (resv b))
      in fold dma_buf_poll_cb cbs (b\<lparr>resv := (resv b)\<lparr>fences := fs\<rparr>\<rparr>))"

text \<open>
  Modelled from the spec: "is access of kind K complete?", that is, whether every fence a
  query for the usage class covers has signalled (\<open>dma_resv_test_signaled\<close>,
  dma-resv.c).
\<close>

definition dma_resv_test_signaled :: "dma_resv \<Rightarrow> dma_resv_usage \<Rightarrow> bool" where
  "dma_resv_test_signaled obj usage =
     list_all (\<lambda>(f, u). usage_covers usage u \<longrightarrow> signaled f) (fences obj)"

text \<open>What ends a sleep: the fences waited for signal, a signal is delivered to the
  sleeping task, or the timeout runs out.\<close>

datatype wakeup = Fences_signal | Signal_pending | Timeout_expires

text \<open>
  Modelled from the spec: \<open>dma_resv_wait_timeout\<close> (dma-resv.c) "blocks the
  calling context until every fence relevant to usage completes, or returns a
  timeout/interruption error; never spuriously returns success early". The result is
  positive on success, 0 on timeout and \<open>-ERESTARTSYS\<close> on interruption. It
  returns at once when nothing relevant is pending. A signal ends only an interruptible
  sleep and the timeout only a bounded one; otherwise the sleep lasts until the fences
  signal (fences complete in finite time).
\<close>

definition dma_resv_wait_timeout ::
  "wakeup \<Rightarrow> ('x, 'y) dma_buf \<Rightarrow> dma_resv_usage \<Rightarrow> bool \<Rightarrow> int
     \<Rightarrow> int \<times> ('x, 'y) dma_buf" where
  "dma_resv_wait_timeout w b usage intr timeout =
     (if dma_resv_test_signaled (resv b) usage then (1, b)
      else if w = Signal_pending \<and> intr then (- ERESTARTSYS, b)
      else if w = Timeout_expires \<and> timeout < MAX_SCHEDULE_TIMEOUT then (0, b)
      else (1, fences_signal (\<lambda>f u. usage_covers usage u) b))"

subsection \<open>CPU access: \<open>dma_buf_begin_cpu_access\<close>\<close>

text \<open>\<open>__dma_buf_begin_cpu_access\<close>: wait on any implicit rendering fences.\<close>

definition dma_buf_begin_cpu_access_fences ::
  "wakeup \<Rightarrow> ('x, 'y) dma_buf \<Rightarrow> dma_data_direction
     \<Rightarrow> int \<times> ('x, 'y) dma_buf \<times> event list" where
  "dma_buf_begin_cpu_access_fences w dmabuf direction =
     (let write = (direction = DMA_BIDIRECTIONAL \<or> direction = DMA_TO_DEVICE);
          (ret, b) = dma_resv_wait_timeout w dmabuf (dma_resv_usage_rw write) True
                       MAX_SCHEDULE_TIMEOUT
      in (if ret < 0 then ret else 0, b,
          [Ev_dma_resv_wait_timeout (dma_resv_usage_rw write) True MAX_SCHEDULE_TIMEOUT]))"

definition dma_buf_begin_cpu_access ::
  "wakeup \<Rightarrow> ('x, 'y) dma_buf option \<Rightarrow> dma_data_direction
     \<Rightarrow> int \<times> ('x, 'y) dma_buf option \<times> event list" where
  "dma_buf_begin_cpu_access w dmabuf_p direction =
     (case dmabuf_p of
        None \<Rightarrow> (- EINVAL, None, [])
      | Some dmabuf \<Rightarrow>
          (let (ret, b1, ev1) =
                 (case begin_cpu_access (ops dmabuf) of
                    None \<Rightarrow> (0, dmabuf, [])
                  | Some hook \<Rightarrow>
                      (let (r, x) = hook direction (priv dmabuf)
                       in (r, dmabuf\<lparr>priv := x\<rparr>, [Ev_begin_cpu_access direction])))
           in if ret = 0
              then (let (ret2, b2, ev2) = dma_buf_begin_cpu_access_fences w b1 direction
                    in (ret2, Some b2, ev1 @ ev2))
              else (ret, Some b1, ev1)))"

subsection \<open>Mapping an attachment: \<open>dma_buf_map_attachment\<close>\<close>

definition dma_buf_attachment_is_dynamic :: "'y dma_buf_attachment \<Rightarrow> bool" where
  "dma_buf_attachment_is_dynamic att = (importer_ops att \<noteq> None)"

definition dma_buf_pin_on_map ::
  "config \<Rightarrow> ('x, 'y) dma_buf \<Rightarrow> 'y dma_buf_attachment \<Rightarrow> bool" where
  "dma_buf_pin_on_map cfg dmabuf att =
     (pin (ops dmabuf) \<noteq> None \<and>
      (\<not> dma_buf_attachment_is_dynamic att \<or> \<not> CONFIG_DMABUF_MOVE_NOTIFY cfg))"

text \<open>
  \<open>mangle_sg_table\<close>: with \<open>CONFIG_DMABUF_DEBUG\<close> the page links of the
  \<open>orig_nents\<close> entries are scrambled, keeping their low eight bits.
\<close>

definition mangle_sg_table :: "config \<Rightarrow> sg_table \<Rightarrow> sg_table" where
  "mangle_sg_table cfg t =
     (if CONFIG_DMABUF_DEBUG cfg
      then t\<lparr>sgl := map (\<lambda>sg. sg\<lparr>page_link := page_link sg XOR NOT 255\<rparr>)
                       (take (orig_nents t) (sgl t)) @ drop (orig_nents t) (sgl t)\<rparr>
      else t)"

text \<open>
  The \<open>CONFIG_DMA_API_DEBUG\<close> block of \<open>dma_buf_map_attachment\<close>: a debug
  message for every DMA-mapped entry whose address or length is not page aligned. The
  length is read into an \<open>int\<close> and widened for the test.
\<close>

definition sg_debug_check :: "config \<Rightarrow> sg_table \<Rightarrow> event list" where
  "sg_debug_check cfg t =
     (if CONFIG_DMA_API_DEBUG cfg
      then concat (map (\<lambda>sg. if \<not> PAGE_ALIGNED (dma_address sg)
                                   \<or> \<not> PAGE_ALIGNED (scast (dma_length sg))
                                then [Ev_pr_debug (dma_address sg) (dma_length sg)]
                                else [])
                       (take (nents t) (sgl t)))
      else [])"

text \<open>The exit path \<open>error_unpin\<close> of \<open>dma_buf_map_attachment\<close>.\<close>

definition map_error_unpin ::
  "config \<Rightarrow> 'y dma_buf_attachment \<Rightarrow> sg_table ptr \<Rightarrow> ('x, 'y) dma_buf \<Rightarrow> event list
     \<Rightarrow> fault + (sg_table ptr \<times> ('x, 'y) dma_buf option \<times> event list)" where
  "map_error_unpin cfg att sg_table b evs =
     (if dma_buf_pin_on_map cfg b att
      then (case unpin (ops b) of
              None \<Rightarrow> Inl NULL_CALL
            | Some hook \<Rightarrow>
                Inr (sg_table, Some (b\<lparr>priv := hook (node att) (priv b)\<rparr>),
                     evs @ [Ev_unpin (node att)]))
      else Inr (sg_table, Some b, evs))"

text \<open>
  The exit path \<open>error_unmap\<close>, which falls through to \<open>error_unpin\<close>. The
  unmap hook is handed the pointer the map hook returned.
\<close>

definition map_error_unmap ::
  "config \<Rightarrow> 'y dma_buf_attachment \<Rightarrow> sg_table ptr \<Rightarrow> int \<Rightarrow> dma_data_direction
     \<Rightarrow> ('x, 'y) dma_buf \<Rightarrow> event list
     \<Rightarrow> fault + (sg_table ptr \<times> ('x, 'y) dma_buf option \<times> event list)" where
  "map_error_unmap cfg att sg_table ret direction b evs =
     (case unmap_dma_buf (ops b) of
        None \<Rightarrow> Inl NULL_CALL
      | Some hook \<Rightarrow>
          map_error_unpin cfg att (ERR_PTR ret)
            (b\<lparr>priv := hook (node att) sg_table direction (priv b)\<rparr>)
            (evs @ [Ev_unmap_dma_buf (node att) sg_table direction]))"

text \<open>
  The tail of \<open>dma_buf_map_attachment\<close> after the fence wait:
  \<open>mangle_sg_table\<close>, the \<open>CONFIG_DMA_API_DEBUG\<close> block and the return of the
  pointer. Both debug blocks read the table through the pointer; without them the
  pointer is returned unread.
\<close>

definition map_finish ::
  "config \<Rightarrow> sg_table ptr \<Rightarrow> ('x, 'y) dma_buf \<Rightarrow> event list
     \<Rightarrow> fault + (sg_table ptr \<times> ('x, 'y) dma_buf option \<times> event list)" where
  "map_finish cfg sg_table b evs =
     (case sg_table of
        PTR sgt \<Rightarrow>
          Inr (PTR (mangle_sg_table cfg sgt), Some b,
               evs @ sg_debug_check cfg (mangle_sg_table cfg sgt))
      | _ \<Rightarrow>
          if CONFIG_DMABUF_DEBUG cfg \<or> CONFIG_DMA_API_DEBUG cfg
          then Inl BAD_POINTER
          else Inr (sg_table, Some b, evs))"

text \<open>
  \<open>dma_buf_map_attachment attach direction\<close>, with \<open>attach->dmabuf\<close> as the
  argument \<open>dmabuf_p\<close>. A null result of the map hook is replaced by
  \<open>ERR_PTR(-ENOMEM)\<close>; an error pointer (\<open>IS_ERR\<close>) leads to
  \<open>error_unpin\<close>; every other pointer is taken for a table.
\<close>

definition dma_buf_map_attachment ::
  "config \<Rightarrow> wakeup \<Rightarrow> 'y dma_buf_attachment option \<Rightarrow> ('x, 'y) dma_buf option
     \<Rightarrow> dma_data_direction
     \<Rightarrow> fault + (sg_table ptr \<times> ('x, 'y) dma_buf option \<times> event list)" where
  "dma_buf_map_attachment cfg w attach_p dmabuf_p direction =
     (case (attach_p, dmabuf_p) of
        (Some att, Some dmabuf) \<Rightarrow>
          (case (if dma_buf_pin_on_map cfg dmabuf att
                 then (case pin (ops dmabuf) of
                         None \<Rightarrow> Inl NULL_CALL
                       | Some hook \<Rightarrow>
                           (let (r, x) = hook (node att) (priv dmabuf)
                            in Inr (r, dmabuf\<lparr>priv := x\<rparr>, [Ev_pin (node att)])))
                 else Inr (0, dmabuf, [])) of
             Inl f \<Rightarrow> Inl f
           | Inr (ret, b1, ev1) \<Rightarrow>
               if ret \<noteq> 0 then Inr (ERR_PTR ret, Some b1, ev1)
               else (case map_dma_buf (ops b1) of
                  None \<Rightarrow> Inl NULL_CALL
                | Some hook \<Rightarrow>
                    (let (sg0, x) = hook (node att) direction (priv b1);
                         b2 = b1\<lparr>priv := x\<rparr>;
                         ev2 = ev1 @ [Ev_map_dma_buf (node att) direction];
                         sg_table = (if ptr_is_null sg0 then ERR_PTR (- ENOMEM) else sg0)
                     in if IS_ERR sg_table
                        then map_error_unpin cfg att sg_table b2 ev2
                        else (let (ret3, b3, ev3) =
                                    (if \<not> dma_buf_attachment_is_dynamic att
                                     then (let (r, b') = dma_resv_wait_timeout w b2
                                                 DMA_RESV_USAGE_KERNEL True MAX_SCHEDULE_TIMEOUT
                                           in (r, b', ev2 @ [Ev_dma_resv_wait_timeout
                                                 DMA_RESV_USAGE_KERNEL True MAX_SCHEDULE_TIMEOUT]))
                                     else (0, b2, ev2))
                              in if ret3 < 0
                                 then map_error_unmap cfg att sg_table ret3 direction b3 ev3
                                 else map_finish cfg sg_table b3 ev3))))
      | _ \<Rightarrow> Inr (ERR_PTR (- EINVAL), dmabuf_p, []))"

subsection \<open>Attaching and move notification\<close>

text \<open>
  \<open>dma_buf_dynamic_attach dmabuf dev importer_ops importer_priv\<close>;
  \<open>kzalloc_ok\<close> says whether the allocation succeeds and \<open>addr\<close> is the address
  it returns. \<open>list_add\<close> puts the attachment at the head of the list.
\<close>

definition dma_buf_dynamic_attach ::
  "bool \<Rightarrow> nat \<Rightarrow> ('x, 'y) dma_buf option \<Rightarrow> nat option
     \<Rightarrow> 'y dma_buf_attach_ops option \<Rightarrow> 'y option
     \<Rightarrow> 'y dma_buf_attachment ptr \<times> ('x, 'y) dma_buf option \<times> event list" where
  "dma_buf_dynamic_attach kzalloc_ok addr dmabuf_p dev_p imp_ops imp_priv =
     (case (dmabuf_p, dev_p) of
        (Some dmabuf, Some d) \<Rightarrow>
          if (case imp_ops of Some io \<Rightarrow> move_notify io = None | None \<Rightarrow> False)
          then (ERR_PTR (- EINVAL), dmabuf_p, [])
          else if \<not> kzalloc_ok then (ERR_PTR (- ENOMEM), dmabuf_p, [Ev_kzalloc])
          else
            (let att = \<lparr>node = addr, dev = d,
                        peer2peer = (case imp_ops of Some io \<Rightarrow> allow_peer2peer io
                                     | None \<Rightarrow> False),
                        importer_ops = imp_ops, importer_priv = imp_priv\<rparr>;
                 (ret, b1, ev1) =
                   (case attach (ops dmabuf) of
                      None \<Rightarrow> (0, dmabuf, [Ev_kzalloc])
                    | Some hook \<Rightarrow>
                        (let (r, x) = hook addr (priv dmabuf)
                         in (r, dmabuf\<lparr>priv := x\<rparr>, [Ev_kzalloc, Ev_attach addr])))
             in if ret \<noteq> 0 then (ERR_PTR ret, Some b1, ev1 @ [Ev_kfree])
                else (PTR att, Some (b1\<lparr>attachments := att # attachments b1\<rparr>), ev1))
      | _ \<Rightarrow> (ERR_PTR (- EINVAL), dmabuf_p, []))"

definition dma_buf_attach ::
  "bool \<Rightarrow> nat \<Rightarrow> ('x, 'y) dma_buf option \<Rightarrow> nat option
     \<Rightarrow> 'y dma_buf_attachment ptr \<times> ('x, 'y) dma_buf option \<times> event list" where
  "dma_buf_attach kzalloc_ok addr dmabuf_p dev_p =
     dma_buf_dynamic_attach kzalloc_ok addr dmabuf_p dev_p None None"

text \<open>
  What \<open>dma_buf_dynamic_attach\<close> checks of the importer operations before it
  creates an attachment: a dynamic importer supplies \<open>move_notify\<close>.
\<close>

definition attachment_valid :: "'y dma_buf_attachment \<Rightarrow> bool" where
  "attachment_valid att =
     (case importer_ops att of None \<Rightarrow> True | Some io \<Rightarrow> move_notify io \<noteq> None)"

text \<open>
  The loop of \<open>dma_buf_move_notify\<close> over the attachment list, from its head. The
  importer's callback works on the importer's private data of the attachment.
\<close>

fun move_notify_each ::
  "'y dma_buf_attachment list \<Rightarrow> fault + ('y dma_buf_attachment list \<times> event list)" where
  "move_notify_each [] = Inr ([], [])"
| "move_notify_each (att # rest) =
     (case importer_ops att of
        None \<Rightarrow>
          (case move_notify_each rest of
             Inl f \<Rightarrow> Inl f
           | Inr (rest', evs) \<Rightarrow> Inr (att # rest', evs))
      | Some io \<Rightarrow>
          (case move_notify io of
             None \<Rightarrow> Inl NULL_CALL
           | Some hook \<Rightarrow>
               (case move_notify_each rest of
                  Inl f \<Rightarrow> Inl f
                | Inr (rest', evs) \<Rightarrow>
                    Inr (att\<lparr>importer_priv := map_option (hook (node att)) (importer_priv att)\<rparr>
                           # rest',
                         Ev_move_notify (node att) # evs))))"

definition dma_buf_move_notify ::
  "('x, 'y) dma_buf \<Rightarrow> fault + (('x, 'y) dma_buf \<times> event list)" where
  "dma_buf_move_notify dmabuf =
     (case move_notify_each (attachments dmabuf) of
        Inl f \<Rightarrow> Inl f
      | Inr (atts, evs) \<Rightarrow> Inr (dmabuf\<lparr>attachments := atts\<rparr>, evs))"

subsection \<open>Kernel mappings: \<open>dma_buf_vmap\<close> and \<open>dma_buf_vunmap\<close>\<close>

text \<open>
  \<open>dma_buf_vmap dmabuf map\<close> returns the error code and the mapping stored through
  \<open>map\<close>, which it clears first. \<open>vmapping_counter\<close> is an \<open>unsigned\<close>
  field, so the increment wraps around at \<open>2^32\<close>.
\<close>

definition dma_buf_vmap ::
  "('x, 'y) dma_buf option \<Rightarrow> iosys_map
     \<Rightarrow> fault + (int \<times> iosys_map \<times> ('x, 'y) dma_buf option \<times> event list)" where
  "dma_buf_vmap dmabuf_p map_arg =
     (let map0 = iosys_map_clear map_arg
      in case dmabuf_p of
           None \<Rightarrow> Inr (- EINVAL, map0, None, [])
         | Some dmabuf \<Rightarrow>
             (case vmap (ops dmabuf) of
                None \<Rightarrow> Inr (- EINVAL, map0, dmabuf_p, [])
              | Some hook \<Rightarrow>
                  if vmapping_counter dmabuf \<noteq> 0
                  then (let b = dmabuf\<lparr>vmapping_counter := vmapping_counter dmabuf + 1\<rparr>
                        in if iosys_map_is_null (vmap_ptr b) then Inl BUG
                           else Inr (0, vmap_ptr b, Some b, []))
                  else if iosys_map_is_set (vmap_ptr dmabuf) then Inl BUG
                  else (let ((ret, ptr), x) = hook (priv dmabuf);
                            b = dmabuf\<lparr>priv := x\<rparr>
                        in if ret \<noteq> 0 then Inr (ret, map0, Some b, [Ev_vmap])
                           else (let b' = b\<lparr>vmap_ptr := ptr, vmapping_counter := 1\<rparr>
                                 in Inr (0, vmap_ptr b', Some b', [Ev_vmap])))))"

definition dma_buf_vunmap ::
  "('x, 'y) dma_buf option \<Rightarrow> iosys_map
     \<Rightarrow> fault + (('x, 'y) dma_buf option \<times> event list)" where
  "dma_buf_vunmap dmabuf_p map_arg =
     (case dmabuf_p of
        None \<Rightarrow> Inr (None, [])
      | Some dmabuf \<Rightarrow>
          if iosys_map_is_null (vmap_ptr dmabuf) then Inl BUG
          else if vmapping_counter dmabuf = 0 then Inl BUG
          else if \<not> iosys_map_is_equal (vmap_ptr dmabuf) map_arg then Inl BUG
          else (let b = dmabuf\<lparr>vmapping_counter := vmapping_counter dmabuf - 1\<rparr>
                in if vmapping_counter b = 0
                   then (let (b', evs) =
                               (case vunmap (ops b) of
                                  None \<Rightarrow> (b, [])
                                | Some hook \<Rightarrow>
                                    (b\<lparr>priv := hook map_arg (priv b)\<rparr>, [Ev_vunmap map_arg]))
                         in Inr (Some (b'\<lparr>vmap_ptr := iosys_map_clear (vmap_ptr b')\<rparr>), evs))
                   else Inr (Some b, [])))"

text \<open>The stored kernel mapping is set exactly when the counter is positive.\<close>

definition vmap_consistent :: "('x, 'y) dma_buf \<Rightarrow> bool" where
  "vmap_consistent b = (iosys_map_is_set (vmap_ptr b) = (vmapping_counter b \<noteq> 0))"

text \<open>An exporter's \<open>vmap\<close> hook that stores a mapping whenever it reports success.\<close>

definition vmap_hook_sets_map :: "('x, 'y) dma_buf \<Rightarrow> bool" where
  "vmap_hook_sets_map b =
     (case vmap (ops b) of
        None \<Rightarrow> True
      | Some hook \<Rightarrow> \<forall>x. fst (fst (hook x)) = 0 \<longrightarrow> iosys_map_is_set (snd (fst (hook x))))"

subsection \<open>Importing a sync file: \<open>dma_buf_import_sync_file\<close>\<close>

text \<open>
  Modelled from the spec: the flag values are those of the uapi header, which is not
  among the sources; the spec names the directions read, write and read-write.
\<close>

definition DMA_BUF_SYNC_READ :: "32 word" where "DMA_BUF_SYNC_READ = 1"
definition DMA_BUF_SYNC_WRITE :: "32 word" where "DMA_BUF_SYNC_WRITE = 2"
definition DMA_BUF_SYNC_RW :: "32 word" where
  "DMA_BUF_SYNC_RW = DMA_BUF_SYNC_READ OR DMA_BUF_SYNC_WRITE"

record dma_buf_import_sync_file_arg =
  flags :: "32 word"
  fd :: int

text \<open>
  Modelled from the spec: \<open>dma_resv_reserve_fences\<close> and
  \<open>dma_resv_add_fence\<close> (dma-resv.c). "Reserves capacity first, then appends":
  reserving makes room for \<open>n\<close> more fences and fails with \<open>-ENOMEM\<close> when
  room has to be allocated and the allocation fails (\<open>alloc_ok\<close>); it leaves the
  fences alone. Adding appends the fence with its usage tag.
\<close>

definition dma_resv_reserve_fences :: "bool \<Rightarrow> dma_resv \<Rightarrow> nat \<Rightarrow> int \<times> dma_resv" where
  "dma_resv_reserve_fences alloc_ok obj n =
     (if length (fences obj) + n \<le> max_fences obj then (0, obj)
      else if alloc_ok then (0, obj\<lparr>max_fences := length (fences obj) + n\<rparr>)
      else (- ENOMEM, obj))"

definition dma_resv_add_fence :: "dma_resv \<Rightarrow> dma_fence \<Rightarrow> dma_resv_usage \<Rightarrow> dma_resv" where
  "dma_resv_add_fence obj f usage = obj\<lparr>fences := fences obj @ [(f, usage)]\<rparr>"

text \<open>
  \<open>dma_buf_import_sync_file dmabuf user_data\<close>. \<open>user_arg\<close> is what
  \<open>copy_from_user\<close> reads (\<open>None\<close> when it faults);
  \<open>sync_file_get_fence\<close> gives for a descriptor the constituent fences that
  \<open>dma_fence_unwrap_for_each\<close> walks through (\<open>None\<close> when the descriptor is not
  a sync file). \<open>num_fences\<close> is an \<open>unsigned int\<close>.
\<close>

definition dma_buf_import_sync_file ::
  "(int \<Rightarrow> dma_fence list option) \<Rightarrow> bool \<Rightarrow> ('x, 'y) dma_buf
     \<Rightarrow> dma_buf_import_sync_file_arg option \<Rightarrow> int \<times> ('x, 'y) dma_buf" where
  "dma_buf_import_sync_file sync_file_get_fence alloc_ok dmabuf user_arg =
     (case user_arg of
        None \<Rightarrow> (- EFAULT, dmabuf)
      | Some arg \<Rightarrow>
          if flags arg AND NOT DMA_BUF_SYNC_RW \<noteq> 0 then (- EINVAL, dmabuf)
          else if flags arg AND DMA_BUF_SYNC_RW = 0 then (- EINVAL, dmabuf)
          else (case sync_file_get_fence (fd arg) of
                  None \<Rightarrow> (- EINVAL, dmabuf)
                | Some fs \<Rightarrow>
                    (let usage = (if flags arg AND DMA_BUF_SYNC_WRITE \<noteq> 0
                                  then DMA_RESV_USAGE_WRITE else DMA_RESV_USAGE_READ);
                         num_fences = (word_of_nat (length fs) :: 32 word)
                     in if num_fences > 0
                        then (let (ret, obj) = dma_resv_reserve_fences alloc_ok (resv dmabuf)
                                                 (unat num_fences)
                              in if ret = 0
                                 then (ret, dmabuf\<lparr>resv :=
                                         fold (\<lambda>f obj. dma_resv_add_fence obj f usage) fs obj\<rparr>)
                                 else (ret, dmabuf\<lparr>resv := obj\<rparr>))
                        else (0, dmabuf))))"

subsection \<open>Readiness polling: \<open>dma_buf_poll\<close>\<close>

text \<open>
  Modelled from the spec: the event bits are those of the uapi header, not among the
  sources (read-ready, write-ready, error).
\<close>

definition EPOLLIN :: "32 word" where "EPOLLIN = 1"
definition EPOLLOUT :: "32 word" where "EPOLLOUT = 4"
definition EPOLLERR :: "32 word" where "EPOLLERR = 8"

text \<open>
  Modelled from the spec: \<open>dma_fence_add_callback\<close> (dma-fence.c) registers the
  callback on a pending fence and returns 0; on a fence that has signalled it registers
  nothing and returns \<open>-ENOENT\<close>.
\<close>

definition dma_fence_add_callback :: "dma_fence \<Rightarrow> poll_slot \<Rightarrow> int \<times> dma_fence" where
  "dma_fence_add_callback f dcb =
     (if signaled f then (- ENOENT, f) else (0, f\<lparr>cb_list := cb_list f @ [dcb]\<rparr>))"

text \<open>
  The loop of \<open>dma_buf_poll_add_cb\<close> over the fences of the usage class: the first
  fence that takes the callback ends it.
\<close>

fun poll_add_cb_each ::
  "(dma_fence \<times> dma_resv_usage) list \<Rightarrow> dma_resv_usage \<Rightarrow> poll_slot
     \<Rightarrow> bool \<times> (dma_fence \<times> dma_resv_usage) list" where
  "poll_add_cb_each [] usage dcb = (False, [])"
| "poll_add_cb_each ((f, u) # fs) usage dcb =
     (if usage_covers usage u
      then (let (r, f') = dma_fence_add_callback f dcb
            in if r = 0 then (True, (f', u) # fs)
               else (let (queued, fs') = poll_add_cb_each fs usage dcb
                     in (queued, (f', u) # fs')))
      else (let (queued, fs') = poll_add_cb_each fs usage dcb
            in (queued, (f, u) # fs')))"

definition dma_buf_poll_add_cb :: "dma_resv \<Rightarrow> bool \<Rightarrow> poll_slot \<Rightarrow> bool \<times> dma_resv" where
  "dma_buf_poll_add_cb obj write dcb =
     (let (queued, fs) = poll_add_cb_each (fences obj) (dma_resv_usage_rw write) dcb
      in (queued, obj\<lparr>fences := fs\<rparr>))"

text \<open>
  The block \<open>if (events & EPOLLOUT) { ... }\<close> of \<open>dma_buf_poll\<close> and its twin for
  \<open>EPOLLIN\<close>, which differ in the slot, the event bit and the \<open>write\<close> flag.
\<close>

definition dma_buf_poll_slot ::
  "poll_slot \<Rightarrow> 32 word \<Rightarrow> bool \<Rightarrow> 32 word \<Rightarrow> ('x, 'y) dma_buf
     \<Rightarrow> 32 word \<times> ('x, 'y) dma_buf" where
  "dma_buf_poll_slot dcb key write events b =
     (if events AND key \<noteq> 0
      then (let (events1, b1) =
                  (if slot_active dcb b \<noteq> 0 then (events AND NOT key, b)
                   else (events, set_slot_active dcb key b))
            in if events1 AND key \<noteq> 0
               then (let b2 = get_file b1;
                         (queued, obj) = dma_buf_poll_add_cb (resv b2) write dcb;
                         b3 = b2\<lparr>resv := obj\<rparr>
                     in if \<not> queued then (events1, dma_buf_poll_cb dcb b3)
                        else (events1 AND NOT key, b3))
               else (events1, b1))
      else (events, b))"

text \<open>
  \<open>dma_buf_poll file poll\<close>, with \<open>file->private_data\<close> and the requested events
  as arguments. The test of \<open>dmabuf->resv\<close> against NULL never fires on a buffer
  made by \<open>dma_buf_export\<close>. \<open>poll_wait\<close> only queues the caller.
\<close>

definition dma_buf_poll ::
  "('x, 'y) dma_buf option \<Rightarrow> 32 word \<Rightarrow> 32 word \<times> ('x, 'y) dma_buf option" where
  "dma_buf_poll private_data requested =
     (case private_data of
        None \<Rightarrow> (EPOLLERR, None)
      | Some dmabuf \<Rightarrow>
          (let events = requested AND (EPOLLIN OR EPOLLOUT)
           in if events = 0 then (0, private_data)
              else (let (events1, b1) = dma_buf_poll_slot CB_OUT EPOLLOUT True events dmabuf;
                        (events2, b2) = dma_buf_poll_slot CB_IN EPOLLIN False events1 b1
                    in (events2, Some b2))))"

definition slot_mask :: "poll_slot \<Rightarrow> 32 word" where
  "slot_mask dcb = (case dcb of CB_IN \<Rightarrow> EPOLLIN | CB_OUT \<Rightarrow> EPOLLOUT)"

text \<open>How many fence callbacks of a slot are registered (armed) on the buffer's fences.\<close>

definition armed :: "poll_slot \<Rightarrow> ('x, 'y) dma_buf \<Rightarrow> nat" where
  "armed dcb b = count_list (concat (map (\<lambda>p. cb_list (fst p)) (fences (resv b)))) dcb"

text \<open>A slot is marked active exactly when its one callback is armed.\<close>

definition poll_consistent :: "('x, 'y) dma_buf \<Rightarrow> bool" where
  "poll_consistent b =
     (\<forall>dcb. armed dcb b = (if slot_active dcb b = 0 then 0 else 1))"

text \<open>
  What can happen to a buffer between two instants, one step at a time: a readiness
  request, a fence signalling (which runs its callbacks), all fences of a usage class
  signalling, a new pending fence being added to the reservation object. A fence stays
  in the list after it has signalled; pruning and replacing fences is not modelled.
\<close>

datatype buf_step =
    Poll "32 word"
  | Fence_signals nat
  | Usage_signals dma_resv_usage
  | Fence_added nat dma_resv_usage

definition buf_step :: "buf_step \<Rightarrow> ('x, 'y) dma_buf \<Rightarrow> ('x, 'y) dma_buf" where
  "buf_step st b =
     (case st of
        Poll requested \<Rightarrow>
          (case snd (dma_buf_poll (Some b) requested) of Some b' \<Rightarrow> b' | None \<Rightarrow> b)
      | Fence_signals k \<Rightarrow> fences_signal (\<lambda>f u. seqno f = k) b
      | Usage_signals q \<Rightarrow> fences_signal (\<lambda>f u. usage_covers q u) b
      | Fence_added k u \<Rightarrow>
          b\<lparr>resv := dma_resv_add_fence (resv b)
                      \<lparr>seqno = k, signaled = False, cb_list = []\<rparr> u\<rparr>)"

subsection \<open>Creating a buffer: \<open>dma_buf_export\<close>\<close>

record 'x dma_buf_export_info =
  info_exp_name :: string
  info_owner :: nat
  info_ops :: "'x dma_buf_ops option"
  info_size :: "64 word"
  info_flags :: "32 word"
  info_resv :: "dma_resv option"
  info_priv :: "'x option"

text \<open>
  What the kernel services called by \<open>dma_buf_export\<close> answer: whether the module
  reference is granted, the error of the inode and of the file allocation (0 for
  success), whether \<open>kzalloc\<close> succeeds, the result of the statistics setup.
\<close>

record export_env =
  try_module_get_ok :: bool
  alloc_anon_inode_err :: int
  alloc_file_pseudo_err :: int
  kzalloc_succeeds :: bool
  dma_buf_stats_setup_ret :: int

text \<open>The global state of the file: the list of buffers and the inode counter.\<close>

record ('x, 'y) dmabuf_globals =
  dmabuf_list :: "('x, 'y) dma_buf list"
  dmabuf_inode :: "64 word"

text \<open>
  Modelled from the spec: the open flags that \<open>dma_buf_getfile\<close> keeps are constants
  of the fcntl headers, not among the sources.
\<close>

definition O_ACCMODE :: "32 word" where "O_ACCMODE = 3"
definition O_NONBLOCK :: "32 word" where "O_NONBLOCK = 2048"

definition dma_buf_getfile ::
  "export_env \<Rightarrow> ('x, 'y) dmabuf_globals \<Rightarrow> 64 word \<Rightarrow> 32 word
     \<Rightarrow> (int + anon_file) \<times> ('x, 'y) dmabuf_globals \<times> event list" where
  "dma_buf_getfile env g sz fl =
     (if alloc_anon_inode_err env \<noteq> 0
      then (Inl (alloc_anon_inode_err env), g, [Ev_alloc_anon_inode])
      else (let ino = dmabuf_inode g + 1;
                g1 = g\<lparr>dmabuf_inode := ino\<rparr>;
                fl1 = fl AND (O_ACCMODE OR O_NONBLOCK)
            in if alloc_file_pseudo_err env \<noteq> 0
               then (Inl (alloc_file_pseudo_err env), g1,
                     [Ev_alloc_anon_inode, Ev_alloc_file_pseudo, Ev_iput])
               else (Inr \<lparr>f_flags = fl1, i_size = sz, i_ino = ino, f_count = 1\<rparr>, g1,
                     [Ev_alloc_anon_inode, Ev_alloc_file_pseudo])))"

definition dma_resv_init :: dma_resv where
  "dma_resv_init = \<lparr>fences = [], max_fences = 0\<rparr>"

text \<open>
  \<open>dma_buf_export exp_info\<close>. The new buffer is zeroed by \<open>kzalloc\<close> before its
  fields are set; \<open>__dma_buf_list_add\<close> puts it at the head of the global list.
\<close>

definition dma_buf_export ::
  "export_env \<Rightarrow> ('x, 'y) dmabuf_globals \<Rightarrow> 'x dma_buf_export_info
     \<Rightarrow> ('x, 'y) dma_buf ptr \<times> ('x, 'y) dmabuf_globals \<times> event list" where
  "dma_buf_export env g exp_info =
     (case (info_priv exp_info, info_ops exp_info) of
        (Some pv, Some xops) \<Rightarrow>
          if map_dma_buf xops = None \<or> unmap_dma_buf xops = None \<or> release xops = None
          then (ERR_PTR (- EINVAL), g, [])
          else if (pin xops = None) \<noteq> (unpin xops = None)
          then (ERR_PTR (- EINVAL), g, [])
          else if \<not> try_module_get_ok env
          then (ERR_PTR (- ENOENT), g, [Ev_try_module_get (info_owner exp_info)])
          else
            (let (fr, g1, ev1) = dma_buf_getfile env g (info_size exp_info) (info_flags exp_info);
                 ev2 = Ev_try_module_get (info_owner exp_info) # ev1
             in case fr of
                  Inl err \<Rightarrow> (ERR_PTR err, g1, ev2 @ [Ev_module_put (info_owner exp_info)])
                | Inr fil \<Rightarrow>
                    if \<not> kzalloc_succeeds env
                    then (ERR_PTR (- ENOMEM), g1,
                          ev2 @ [Ev_kzalloc, Ev_fput, Ev_module_put (info_owner exp_info)])
                    else
                      (let dmabuf = \<lparr>buf_size = info_size exp_info, buf_file = fil,
                             attachments = [], ops = xops, vmapping_counter = 0,
                             vmap_ptr = \<lparr>vaddr = 0, is_iomem = False\<rparr>,
                             exp_name = info_exp_name exp_info, owner = info_owner exp_info,
                             priv = pv,
                             resv = (case info_resv exp_info of
                                       None \<Rightarrow> dma_resv_init | Some obj \<Rightarrow> obj),
                             woken = [], cb_in_active = 0, cb_out_active = 0\<rparr>;
                           ini = (if info_resv exp_info = None then [Ev_dma_resv_init] else []);
                           fini = (if info_resv exp_info = None then [Ev_dma_resv_fini] else [])
                       in if dma_buf_stats_setup_ret env \<noteq> 0
                          then (ERR_PTR (dma_buf_stats_setup_ret env), g1,
                                ev2 @ [Ev_kzalloc] @ ini @ [Ev_dma_buf_stats_setup] @ fini
                                  @ [Ev_kfree, Ev_fput, Ev_module_put (info_owner exp_info)])
                          else (PTR dmabuf, g1\<lparr>dmabuf_list := dmabuf # dmabuf_list g1\<rparr>,
                                ev2 @ [Ev_kzalloc] @ ini @ [Ev_dma_buf_stats_setup])))
      | _ \<Rightarrow> (ERR_PTR (- EINVAL), g, []))"

text \<open>The operations \<open>dma_buf_export\<close> accepts.\<close>

definition ops_valid :: "'x dma_buf_ops \<Rightarrow> bool" where
  "ops_valid xops =
     (map_dma_buf xops \<noteq> None \<and> unmap_dma_buf xops \<noteq> None \<and> release xops \<noteq> None
      \<and> (pin xops = None) = (unpin xops = None))"

subsection \<open>Concrete buffers for the closed instances\<close>

definition ops_none :: "'x dma_buf_ops" where
  "ops_none = \<lparr>attach = None, pin = None, unpin = None, map_dma_buf = None,
     unmap_dma_buf = None, release = None, begin_cpu_access = None, mmap = None,
     vmap = None, vunmap = None\<rparr>"

definition demo_sgt :: sg_table where
  "demo_sgt = \<lparr>sgl = [\<lparr>page_link = 0, dma_address = 65536, dma_length = 4096\<rparr>],
     nents = 1, orig_nents = 1\<rparr>"

text \<open>An exporter whose private data counts the calls of its hooks.\<close>

definition demo_ops :: "nat dma_buf_ops" where
  "demo_ops = ops_none\<lparr>
     map_dma_buf := Some (\<lambda>a d x. (PTR demo_sgt, Suc x)),
     unmap_dma_buf := Some (\<lambda>a t d x. Suc x),
     release := Some (\<lambda>x. x),
     mmap := Some (\<lambda>vma x. (0, Suc x))\<rparr>"

definition null_map :: iosys_map where
  "null_map = \<lparr>vaddr = 0, is_iomem = False\<rparr>"

definition resv_empty :: dma_resv where
  "resv_empty = \<lparr>fences = [], max_fences = 0\<rparr>"

definition demo_buf :: "(nat, unit) dma_buf" where
  "demo_buf = \<lparr>buf_size = 4096,
     buf_file = \<lparr>f_flags = 0, i_size = 4096, i_ino = 1, f_count = 1\<rparr>,
     attachments = [], ops = demo_ops, vmapping_counter = 0, vmap_ptr = null_map,
     exp_name = ''demo'', owner = 0, priv = 0, resv = resv_empty, woken = [],
     cb_in_active = 0, cb_out_active = 0\<rparr>"

text \<open>A buffer with one pending fence of each usage class.\<close>

definition demo_fences :: "(dma_fence \<times> dma_resv_usage) list" where
  "demo_fences =
     [(\<lparr>seqno = 1, signaled = False, cb_list = []\<rparr>, DMA_RESV_USAGE_KERNEL),
      (\<lparr>seqno = 2, signaled = False, cb_list = []\<rparr>, DMA_RESV_USAGE_WRITE),
      (\<lparr>seqno = 3, signaled = False, cb_list = []\<rparr>, DMA_RESV_USAGE_READ)]"

definition demo_busy_buf :: "(nat, unit) dma_buf" where
  "demo_busy_buf = demo_buf\<lparr>resv := \<lparr>fences = demo_fences, max_fences = 4\<rparr>\<rparr>"

text \<open>The same buffer after its kernel and write fences have signalled.\<close>

definition demo_read_buf :: "(nat, unit) dma_buf" where
  "demo_read_buf = demo_buf\<lparr>resv := \<lparr>fences =
     [(\<lparr>seqno = 1, signaled = True, cb_list = []\<rparr>, DMA_RESV_USAGE_KERNEL),
      (\<lparr>seqno = 2, signaled = True, cb_list = []\<rparr>, DMA_RESV_USAGE_WRITE),
      (\<lparr>seqno = 3, signaled = False, cb_list = []\<rparr>, DMA_RESV_USAGE_READ)],
     max_fences = 4\<rparr>\<rparr>"

text \<open>Whether the DMA addresses and lengths of a mapped table are page aligned.\<close>

definition sg_table_page_aligned :: "sg_table \<Rightarrow> bool" where
  "sg_table_page_aligned t =
     list_all (\<lambda>sg. PAGE_ALIGNED (dma_address sg) \<and> PAGE_ALIGNED (ucast (dma_length sg)))
       (take (nents t) (sgl t))"

definition demo_cfg :: config where
  "demo_cfg = \<lparr>CONFIG_DMABUF_MOVE_NOTIFY = True, CONFIG_DMABUF_DEBUG = False,
     CONFIG_DMA_API_DEBUG = True\<rparr>"

text \<open>A static attachment (no importer operations) and a dynamic one.\<close>

definition demo_att :: "unit dma_buf_attachment" where
  "demo_att = \<lparr>node = 7, dev = 1, peer2peer = False, importer_ops = None,
     importer_priv = None\<rparr>"

definition demo_dyn_att :: "unit dma_buf_attachment" where
  "demo_dyn_att = \<lparr>node = 8, dev = 2, peer2peer = False,
     importer_ops = Some \<lparr>allow_peer2peer = False, move_notify = Some (\<lambda>a y. y)\<rparr>,
     importer_priv = Some ()\<rparr>"

text \<open>An exporter whose map hook returns a table that is not page aligned.\<close>

definition odd_sgt :: sg_table where
  "odd_sgt = \<lparr>sgl = [\<lparr>page_link = 0, dma_address = 65537, dma_length = 3\<rparr>],
     nents = 1, orig_nents = 1\<rparr>"

definition odd_buf :: "(nat, unit) dma_buf" where
  "odd_buf = demo_buf\<lparr>ops := demo_ops\<lparr>map_dma_buf := Some (\<lambda>a d x. (PTR odd_sgt, Suc x))\<rparr>\<rparr>"

text \<open>
  An exporter with pin and unpin whose map hook fails, and one whose map hook succeeds;
  the private data records the calls (1 pin, 2 map, 3 unmap, 4 unpin).
\<close>

definition pin_ops :: "sg_table ptr \<Rightarrow> nat list dma_buf_ops" where
  "pin_ops res = ops_none\<lparr>
     pin := Some (\<lambda>a x. (0, x @ [1])),
     unpin := Some (\<lambda>a x. x @ [4]),
     map_dma_buf := Some (\<lambda>a d x. (res, x @ [2])),
     unmap_dma_buf := Some (\<lambda>a t d x. x @ [3]),
     release := Some (\<lambda>x. x)\<rparr>"

definition pin_buf :: "sg_table ptr \<Rightarrow> (nat list, unit) dma_buf" where
  "pin_buf res = \<lparr>buf_size = 4096,
     buf_file = \<lparr>f_flags = 0, i_size = 4096, i_ino = 1, f_count = 1\<rparr>,
     attachments = [], ops = pin_ops res, vmapping_counter = 0, vmap_ptr = null_map,
     exp_name = ''pin'', owner = 0, priv = [],
     resv = \<lparr>fences = demo_fences, max_fences = 4\<rparr>, woken = [],
     cb_in_active = 0, cb_out_active = 0\<rparr>"

text \<open>
  A buffer shared by a dynamic importer, a static one and a second dynamic one. The
  importers' private data count the move notifications they got; the second dynamic
  importer adds the address of its attachment instead of one.
\<close>

definition notify_atts :: "nat dma_buf_attachment list" where
  "notify_atts =
     [\<lparr>node = 8, dev = 2, peer2peer = False,
       importer_ops = Some \<lparr>allow_peer2peer = False, move_notify = Some (\<lambda>a y. Suc y)\<rparr>,
       importer_priv = Some 0\<rparr>,
      \<lparr>node = 7, dev = 1, peer2peer = False, importer_ops = None, importer_priv = Some 5\<rparr>,
      \<lparr>node = 9, dev = 3, peer2peer = False,
       importer_ops = Some \<lparr>allow_peer2peer = False, move_notify = Some (\<lambda>a y. y + a)\<rparr>,
       importer_priv = Some 100\<rparr>]"

definition notify_buf :: "(nat, nat) dma_buf" where
  "notify_buf = \<lparr>buf_size = 4096,
     buf_file = \<lparr>f_flags = 0, i_size = 4096, i_ino = 1, f_count = 1\<rparr>,
     attachments = notify_atts, ops = demo_ops, vmapping_counter = 0, vmap_ptr = null_map,
     exp_name = ''demo'', owner = 0, priv = 0, resv = resv_empty, woken = [],
     cb_in_active = 0, cb_out_active = 0\<rparr>"

text \<open>The export request that creates \<open>demo_buf\<close>, with every service succeeding.\<close>

definition demo_info :: "nat dma_buf_export_info" where
  "demo_info = \<lparr>info_exp_name = ''demo'', info_owner = 0, info_ops = Some demo_ops,
     info_size = 4096, info_flags = 0, info_resv = None, info_priv = Some 0\<rparr>"

definition demo_env :: export_env where
  "demo_env = \<lparr>try_module_get_ok = True, alloc_anon_inode_err = 0,
     alloc_file_pseudo_err = 0, kzalloc_succeeds = True, dma_buf_stats_setup_ret = 0\<rparr>"

definition demo_globals :: "(nat, unit) dmabuf_globals" where
  "demo_globals = \<lparr>dmabuf_list = [], dmabuf_inode = 0\<rparr>"

text \<open>
  An exporter with kernel-mapping hooks, and its buffer at nesting depth \<open>n\<close>; an
  exporter whose \<open>vmap\<close> hook reports success without storing a mapping.
\<close>

definition demo_kmap :: iosys_map where
  "demo_kmap = \<lparr>vaddr = 4096, is_iomem = False\<rparr>"

definition vmap_ops :: "iosys_map \<Rightarrow> nat dma_buf_ops" where
  "vmap_ops m = demo_ops\<lparr>vmap := Some (\<lambda>x. ((0, m), Suc x)),
     vunmap := Some (\<lambda>m x. Suc x)\<rparr>"

definition vmap_buf :: "32 word \<Rightarrow> (nat, unit) dma_buf" where
  "vmap_buf n = demo_buf\<lparr>ops := vmap_ops demo_kmap, vmapping_counter := n,
     vmap_ptr := (if n = 0 then null_map else demo_kmap)\<rparr>"

definition null_vmap_buf :: "(nat, unit) dma_buf" where
  "null_vmap_buf = demo_buf\<lparr>ops := vmap_ops null_map\<rparr>"

text \<open>A sync file (descriptor 3) that wraps two pending fences, and a request to import
  it for writing.\<close>

definition demo_sync_fences :: "dma_fence list" where
  "demo_sync_fences = [\<lparr>seqno = 10, signaled = False, cb_list = []\<rparr>,
                       \<lparr>seqno = 11, signaled = False, cb_list = []\<rparr>]"

definition demo_sync_files :: "int \<Rightarrow> dma_fence list option" where
  "demo_sync_files d = (if d = 3 then Some demo_sync_fences else None)"

definition demo_import_arg :: dma_buf_import_sync_file_arg where
  "demo_import_arg = \<lparr>flags = DMA_BUF_SYNC_WRITE, fd = 3\<rparr>"

text \<open>A sync file (descriptor 3) that wraps \<open>2^32\<close> pending fences.\<close>

definition wrap_sync_fences :: "dma_fence list" where
  "wrap_sync_fences = map (\<lambda>i. \<lparr>seqno = i, signaled = False, cb_list = []\<rparr>) [0..<2 ^ 32]"

definition wrap_sync_files :: "int \<Rightarrow> dma_fence list option" where
  "wrap_sync_files d = (if d = 3 then Some wrap_sync_fences else None)"

text \<open>The busy buffer after a request for write readiness: the callback of
  \<open>cb_out\<close> is armed on the first fence and holds a file reference.\<close>

definition demo_armed_buf :: "(nat, unit) dma_buf" where
  "demo_armed_buf = demo_buf\<lparr>
     buf_file := \<lparr>f_flags = 0, i_size = 4096, i_ino = 1, f_count = 2\<rparr>,
     resv := \<lparr>fences =
       [(\<lparr>seqno = 1, signaled = False, cb_list = [CB_OUT]\<rparr>, DMA_RESV_USAGE_KERNEL),
        (\<lparr>seqno = 2, signaled = False, cb_list = []\<rparr>, DMA_RESV_USAGE_WRITE),
        (\<lparr>seqno = 3, signaled = False, cb_list = []\<rparr>, DMA_RESV_USAGE_READ)],
       max_fences = 4\<rparr>,
     cb_out_active := EPOLLOUT\<rparr>"

definition demo_vma :: vm_area_struct where
  "demo_vma = \<lparr>vm_start = 0, vm_end = 8192, vm_pgoff = 0\<rparr>"

section \<open>Properties\<close>

subsection \<open>Word arithmetic\<close>

lemma word_add_overflow_nat:
  fixes x y :: "64 word"
  shows "(x + y < x) = (2 ^ 64 \<le> unat x + unat y)"
  using no_olen_add_nat [of x y] by (simp add: not_le [symmetric])

lemma word_sum_gt_nat:
  fixes x y c :: "64 word"
  assumes "unat x + unat y < 2 ^ 64"
  shows "(c < x + y) = (unat c < unat x + unat y)"
  using assms by (simp add: word_less_nat_alt unat_add_lem [THEN iffD1])

lemma unat_size_pages:
  "unat (drop_bit PAGE_SHIFT (w :: 64 word)) = unat w div 2 ^ PAGE_SHIFT"
  unfolding unat_drop_bit_eq by (simp add: drop_bit_eq_div)

subsection \<open>Host mmap\<close>

text \<open>
  C10. A host-mmap request is rejected with \<open>-EINVAL\<close>, the exporter's hook not
  called and the buffer untouched, when the exporter has no \<open>mmap\<close> hook or when
  page offset plus page count exceeds the buffer's size in pages. In
  \<open>dma_buf_mmap_internal\<close> the sum is the \<open>unsigned long\<close> sum the code
  computes (it equals the mathematical sum when that stays below \<open>2^64\<close>);
  \<open>dma_buf_mmap\<close> first rejects a sum that overflows \<open>unsigned long\<close> with
  \<open>-EOVERFLOW\<close>, a different error.
\<close>

theorem mmap_rejected:
  fixes dmabuf :: "('x, 'y) dma_buf"
  shows
  "(mmap (ops dmabuf) = None
      \<or> drop_bit PAGE_SHIFT (buf_size dmabuf) < vm_pgoff vma + vma_pages vma
      \<or> (unat (vm_pgoff vma) + unat (vma_pages vma) < 2 ^ 64
          \<and> unat (buf_size dmabuf) div 2 ^ PAGE_SHIFT
               < unat (vm_pgoff vma) + unat (vma_pages vma))
    \<longrightarrow> dma_buf_mmap_internal f_op dmabuf vma = (- EINVAL, dmabuf, []))
   \<and> (mmap (ops dmabuf) = None
      \<or> (unat pgoff + unat (vma_pages vma) < 2 ^ 64
          \<and> unat (buf_size dmabuf) div 2 ^ PAGE_SHIFT < unat pgoff + unat (vma_pages vma))
    \<longrightarrow> dma_buf_mmap (Some dmabuf) (Some vma) pgoff = (- EINVAL, Some dmabuf, []))
   \<and> (mmap (ops dmabuf) \<noteq> None \<and> 2 ^ 64 \<le> unat pgoff + unat (vma_pages vma)
    \<longrightarrow> dma_buf_mmap (Some dmabuf) (Some vma) pgoff = (- EOVERFLOW, Some dmabuf, []))
   \<and> EOVERFLOW \<noteq> EINVAL"
proof (intro conjI impI)
  assume "mmap (ops dmabuf) = None
      \<or> drop_bit PAGE_SHIFT (buf_size dmabuf) < vm_pgoff vma + vma_pages vma
      \<or> (unat (vm_pgoff vma) + unat (vma_pages vma) < 2 ^ 64
          \<and> unat (buf_size dmabuf) div 2 ^ PAGE_SHIFT
               < unat (vm_pgoff vma) + unat (vma_pages vma))"
  then have "mmap (ops dmabuf) = None
      \<or> drop_bit PAGE_SHIFT (buf_size dmabuf) < vm_pgoff vma + vma_pages vma"
    using word_sum_gt_nat [of "vm_pgoff vma" "vma_pages vma"
        "drop_bit PAGE_SHIFT (buf_size dmabuf)"]
    by (auto simp: unat_size_pages)
  then show "dma_buf_mmap_internal f_op dmabuf vma = (- EINVAL, dmabuf, [])"
    by (auto simp: dma_buf_mmap_internal_def split: option.splits)
next
  assume h: "mmap (ops dmabuf) = None
      \<or> (unat pgoff + unat (vma_pages vma) < 2 ^ 64
          \<and> unat (buf_size dmabuf) div 2 ^ PAGE_SHIFT < unat pgoff + unat (vma_pages vma))"
  show "dma_buf_mmap (Some dmabuf) (Some vma) pgoff = (- EINVAL, Some dmabuf, [])"
  proof (cases "mmap (ops dmabuf)")
    case None
    then show ?thesis by (simp add: dma_buf_mmap_def)
  next
    case (Some hook)
    with h have n: "unat pgoff + unat (vma_pages vma) < 2 ^ 64"
      and g: "unat (buf_size dmabuf) div 2 ^ PAGE_SHIFT < unat pgoff + unat (vma_pages vma)"
      by auto
    from n have "\<not> pgoff + vma_pages vma < pgoff"
      by (simp add: word_add_overflow_nat)
    moreover from n g have "drop_bit PAGE_SHIFT (buf_size dmabuf) < pgoff + vma_pages vma"
      by (simp add: word_sum_gt_nat unat_size_pages)
    ultimately show ?thesis using Some by (simp add: dma_buf_mmap_def)
  qed
next
  assume "mmap (ops dmabuf) \<noteq> None \<and> 2 ^ 64 \<le> unat pgoff + unat (vma_pages vma)"
  then show "dma_buf_mmap (Some dmabuf) (Some vma) pgoff = (- EOVERFLOW, Some dmabuf, [])"
    by (auto simp: dma_buf_mmap_def word_add_overflow_nat)
next
  show "EOVERFLOW \<noteq> EINVAL" by (simp add: EOVERFLOW_def EINVAL_def)
qed

lemma demo_vma_pages: "vma_pages demo_vma = 2" "vm_pgoff demo_vma = 0"
  by (simp_all add: vma_pages_def demo_vma_def PAGE_SHIFT_def drop_bit_eq_div)

lemma demo_buf_mmap: "mmap (ops demo_buf) \<noteq> None" "buf_size demo_buf = 4096"
  by (simp_all add: demo_buf_def demo_ops_def)

theorem mmap_rejected_witness:
  "dma_buf_mmap_internal Dma_buf_fops demo_buf demo_vma = (- EINVAL, demo_buf, [])
   \<and> dma_buf_mmap (Some demo_buf) (Some demo_vma) 0 = (- EINVAL, Some demo_buf, [])
   \<and> dma_buf_mmap (Some demo_buf) (Some demo_vma) 18446744073709551615
       = (- EOVERFLOW, Some demo_buf, [])
   \<and> mmap (ops demo_buf) \<noteq> None
   \<and> unat (buf_size demo_buf) div 2 ^ PAGE_SHIFT < unat (vma_pages demo_vma)"
  using mmap_rejected [where dmabuf = demo_buf and vma = demo_vma and pgoff = 0
      and f_op = Dma_buf_fops]
    mmap_rejected [where dmabuf = demo_buf and vma = demo_vma and pgoff = 18446744073709551615
      and f_op = Dma_buf_fops]
  by (simp add: demo_vma_pages demo_buf_mmap PAGE_SHIFT_def)

subsection \<open>Fence completion\<close>

lemma signal_where_covered:
  "(f, u) \<in> set (fst (dma_fence_signal_where (\<lambda>f u. Q u) fs)) \<Longrightarrow> Q u \<Longrightarrow> signaled f"
  by (induction fs) (auto split: prod.splits if_splits)

lemma signal_where_ids:
  "map (\<lambda>(f, u). (seqno f, u)) (fst (dma_fence_signal_where P fs))
     = map (\<lambda>(f, u). (seqno f, u)) fs"
  by (induction fs) (auto split: prod.splits if_splits)

lemma signal_where_others:
  "filter (\<lambda>p. \<not> Q (snd p)) (fst (dma_fence_signal_where (\<lambda>f u. Q u) fs))
     = filter (\<lambda>p. \<not> Q (snd p)) fs"
  by (induction fs) (auto simp: split_beta)

lemma resv_dma_buf_poll_cb: "resv (dma_buf_poll_cb dcb b) = resv b"
  by (cases dcb) (simp_all add: dma_buf_poll_cb_def fput_def set_slot_active_def)

lemma resv_fold_poll_cb: "resv (fold dma_buf_poll_cb cbs b) = resv b"
  by (induction cbs arbitrary: b) (simp_all add: resv_dma_buf_poll_cb)

lemma fences_fences_signal:
  "fences (resv (fences_signal P b)) = fst (dma_fence_signal_where P (fences (resv b)))"
  by (simp add: fences_signal_def resv_fold_poll_cb split: prod.splits)

lemma test_signaled_iff:
  "dma_resv_test_signaled obj q
     = (\<forall>(f, u) \<in> set (fences obj). usage_covers q u \<longrightarrow> signaled f)"
  by (auto simp: dma_resv_test_signaled_def list_all_iff)

lemma wait_timeout_success:
  assumes "dma_resv_wait_timeout w b q intr t = (ret, b')" and "0 < ret"
  shows "(\<forall>(f, u) \<in> set (fences (resv b')). usage_covers q u \<longrightarrow> signaled f)"
    and "map (\<lambda>(f, u). (seqno f, u)) (fences (resv b'))
           = map (\<lambda>(f, u). (seqno f, u)) (fences (resv b))"
    and "filter (\<lambda>p. \<not> usage_covers q (snd p)) (fences (resv b'))
           = filter (\<lambda>p. \<not> usage_covers q (snd p)) (fences (resv b))"
  using assms
  by (auto simp: dma_resv_wait_timeout_def test_signaled_iff fences_fences_signal
      signal_where_ids signal_where_others ERESTARTSYS_def
      dest: signal_where_covered split: if_splits)

lemma wait_timeout_unbounded:
  assumes "dma_resv_wait_timeout w b q intr MAX_SCHEDULE_TIMEOUT = (ret, b')"
  shows "ret = 1 \<or> (ret = - ERESTARTSYS \<and> intr \<and> w = Signal_pending \<and> b' = b)"
  using assms by (auto simp: dma_resv_wait_timeout_def split: if_splits)

subsection \<open>CPU access\<close>

lemma begin_cpu_access_fences_success:
  assumes "dma_buf_begin_cpu_access_fences w b direction = (0, b', evs)"
  shows "(let q = dma_resv_usage_rw (direction = DMA_BIDIRECTIONAL \<or> direction = DMA_TO_DEVICE)
          in evs = [Ev_dma_resv_wait_timeout q True MAX_SCHEDULE_TIMEOUT]
           \<and> (\<forall>(f, u) \<in> set (fences (resv b')). usage_covers q u \<longrightarrow> signaled f)
           \<and> map (\<lambda>(f, u). (seqno f, u)) (fences (resv b'))
               = map (\<lambda>(f, u). (seqno f, u)) (fences (resv b))
           \<and> filter (\<lambda>p. \<not> usage_covers q (snd p)) (fences (resv b'))
               = filter (\<lambda>p. \<not> usage_covers q (snd p)) (fences (resv b)))"
proof -
  let ?q = "dma_resv_usage_rw (direction = DMA_BIDIRECTIONAL \<or> direction = DMA_TO_DEVICE)"
  obtain ret where w: "dma_resv_wait_timeout w b ?q True MAX_SCHEDULE_TIMEOUT = (ret, b')"
    and r: "\<not> ret < 0" and e: "evs = [Ev_dma_resv_wait_timeout ?q True MAX_SCHEDULE_TIMEOUT]"
    using assms
    by (auto simp: dma_buf_begin_cpu_access_fences_def Let_def split: prod.splits if_splits)
  from wait_timeout_unbounded [OF w] r have "0 < ret"
    by (auto simp: ERESTARTSYS_def)
  from wait_timeout_success [OF w this] e show ?thesis
    by (simp add: Let_def)
qed

lemma usage_rw_covers:
  "usage_covers (dma_resv_usage_rw True) u"
  "usage_covers (dma_resv_usage_rw False) u = (u \<noteq> DMA_RESV_USAGE_READ)"
  by (cases u; simp add: usage_covers_def dma_resv_usage_rw_def)+

text \<open>
  C1. Whenever \<open>dma_buf_begin_cpu_access\<close> returns success, whether the exporter
  has a \<open>begin_cpu_access\<close> hook that returned 0 or has no hook at all, its last
  step was an interruptible wait without time limit on the fences of the direction's
  usage class, and every fence of that class has signalled: for a read-only direction
  these are the fences not tagged \<open>READ\<close> (the write fences, and the kernel
  fences before them), the fences tagged \<open>READ\<close> staying as they were; for a
  writing or bidirectional access they are all fences. The fence set itself is the same
  as before the call.
\<close>

theorem begin_cpu_access_waits:
  fixes dmabuf :: "('x, 'y) dma_buf"
  assumes "dma_buf_begin_cpu_access w (Some dmabuf) direction = (0, r, evs)"
  shows "(let write = (direction = DMA_BIDIRECTIONAL \<or> direction = DMA_TO_DEVICE);
              q = dma_resv_usage_rw write
          in \<exists>b'. r = Some b'
           \<and> evs \<noteq> []
           \<and> last evs = Ev_dma_resv_wait_timeout q True MAX_SCHEDULE_TIMEOUT
           \<and> (\<forall>(f, u) \<in> set (fences (resv b')). usage_covers q u \<longrightarrow> signaled f)
           \<and> map (\<lambda>(f, u). (seqno f, u)) (fences (resv b'))
               = map (\<lambda>(f, u). (seqno f, u)) (fences (resv dmabuf))
           \<and> filter (\<lambda>p. \<not> usage_covers q (snd p)) (fences (resv b'))
               = filter (\<lambda>p. \<not> usage_covers q (snd p)) (fences (resv dmabuf))
           \<and> (\<forall>u. usage_covers q u = (write \<or> u \<noteq> DMA_RESV_USAGE_READ)))"
proof -
  obtain b1 ev1 b2 ev2 where
    f: "dma_buf_begin_cpu_access_fences w b1 direction = (0, b2, ev2)"
    and b1: "resv b1 = resv dmabuf" and r: "r = Some b2" and evs: "evs = ev1 @ ev2"
    using assms
    by (auto simp: dma_buf_begin_cpu_access_def Let_def
        split: option.splits prod.splits if_splits)
  from begin_cpu_access_fences_success [OF f] r evs b1 show ?thesis
    by (cases "direction = DMA_BIDIRECTIONAL \<or> direction = DMA_TO_DEVICE")
       (simp_all add: Let_def usage_rw_covers)
qed

lemma demo_begin_cpu_access:
  "dma_buf_begin_cpu_access Fences_signal (Some demo_busy_buf) DMA_FROM_DEVICE
     = (0, Some demo_read_buf,
        [Ev_dma_resv_wait_timeout DMA_RESV_USAGE_WRITE True MAX_SCHEDULE_TIMEOUT])"
  by (simp add: dma_buf_begin_cpu_access_def dma_buf_begin_cpu_access_fences_def
      dma_resv_wait_timeout_def dma_resv_test_signaled_def fences_signal_def
      demo_busy_buf_def demo_read_buf_def demo_buf_def demo_ops_def ops_none_def
      demo_fences_def dma_resv_usage_rw_def usage_covers_def)

theorem begin_cpu_access_waits_witness:
  "dma_buf_begin_cpu_access Fences_signal (Some demo_busy_buf) DMA_FROM_DEVICE
     = (0, Some demo_read_buf,
        [Ev_dma_resv_wait_timeout DMA_RESV_USAGE_WRITE True MAX_SCHEDULE_TIMEOUT])
   \<and> begin_cpu_access (ops demo_busy_buf) = None
   \<and> map (\<lambda>(f, u). (seqno f, signaled f)) (fences (resv demo_busy_buf))
        = [(1, False), (2, False), (3, False)]
   \<and> map (\<lambda>(f, u). (seqno f, signaled f)) (fences (resv demo_read_buf))
        = [(1, True), (2, True), (3, False)]
   \<and> (\<exists>b'. Some demo_read_buf = Some b'
        \<and> (\<forall>(f, u) \<in> set (fences (resv b')).
              usage_covers DMA_RESV_USAGE_WRITE u \<longrightarrow> signaled f))"
  using begin_cpu_access_waits [OF demo_begin_cpu_access] demo_begin_cpu_access
  by (simp add: Let_def dma_resv_usage_rw_def demo_busy_buf_def demo_read_buf_def
      demo_buf_def demo_ops_def ops_none_def demo_fences_def)

subsection \<open>Mapping an attachment\<close>

lemma usage_covers_kernel: "usage_covers DMA_RESV_USAGE_KERNEL u = (u = DMA_RESV_USAGE_KERNEL)"
  by (cases u) (simp_all add: usage_covers_def)

lemma map_error_unpin_result:
  "map_error_unpin cfg att p b evs = Inr (q, r, evs') \<Longrightarrow>
     q = p \<and> (\<exists>b'. r = Some b' \<and> resv b' = resv b \<and> ops b' = ops b)
     \<and> (evs' = evs \<or> evs' = evs @ [Ev_unpin (node att)])"
  by (auto simp: map_error_unpin_def split: if_splits option.splits)

lemma map_error_unmap_result:
  "map_error_unmap cfg att sg ret d b evs = Inr (q, r, evs') \<Longrightarrow>
     q = ERR_PTR ret \<and> (\<exists>b'. r = Some b' \<and> resv b' = resv b \<and> ops b' = ops b)"
  by (auto simp: map_error_unmap_def split: option.splits dest!: map_error_unpin_result)

lemma map_finish_result:
  "map_finish cfg p b evs = Inr (q, r, evs') \<Longrightarrow>
     r = Some b \<and> (\<exists>dbg. evs' = evs @ dbg \<and> (\<forall>u i t. Ev_dma_resv_wait_timeout u i t \<notin> set dbg))
     \<and> (case p of PTR sgt \<Rightarrow> q = PTR (mangle_sg_table cfg sgt) | _ \<Rightarrow> q = p)"
  by (auto simp: map_finish_def sg_debug_check_def split: ptr.splits if_splits)

text \<open>
  C2. When \<open>dma_buf_map_attachment\<close> succeeds on a static attachment (one without
  importer operations), it has made an interruptible wait without time limit for the
  kernel-usage fences, and every kernel-usage fence of the buffer has signalled when it
  returns. On a dynamic attachment it makes no fence wait at all, whatever it returns,
  and leaves the reservation object as it was.
\<close>

theorem map_static_waits:
  fixes dmabuf :: "('x, 'y) dma_buf"
  shows
  "(importer_ops att = None
      \<and> dma_buf_map_attachment cfg w (Some att) (Some dmabuf) direction = Inr (PTR sgt, r, evs)
    \<longrightarrow> (\<exists>b'. r = Some b'
          \<and> Ev_dma_resv_wait_timeout DMA_RESV_USAGE_KERNEL True MAX_SCHEDULE_TIMEOUT \<in> set evs
          \<and> (\<forall>(f, u) \<in> set (fences (resv b')). u = DMA_RESV_USAGE_KERNEL \<longrightarrow> signaled f)
          \<and> map (\<lambda>(f, u). (seqno f, u)) (fences (resv b'))
              = map (\<lambda>(f, u). (seqno f, u)) (fences (resv dmabuf))))
   \<and> (importer_ops att \<noteq> None
      \<and> dma_buf_map_attachment cfg w (Some att) (Some dmabuf) direction = Inr (p, r, evs)
    \<longrightarrow> (\<forall>q i t. Ev_dma_resv_wait_timeout q i t \<notin> set evs)
        \<and> (\<exists>b'. r = Some b' \<and> resv b' = resv dmabuf))"
proof (rule conjI; rule impI)
  assume a: "importer_ops att = None
      \<and> dma_buf_map_attachment cfg w (Some att) (Some dmabuf) direction = Inr (PTR sgt, r, evs)"
  then obtain b2 ret b3 where
    w: "dma_resv_wait_timeout w b2 DMA_RESV_USAGE_KERNEL True MAX_SCHEDULE_TIMEOUT = (ret, b3)"
    and ret: "\<not> ret < 0" and r: "r = Some b3" and b2: "resv b2 = resv dmabuf"
    and evs: "Ev_dma_resv_wait_timeout DMA_RESV_USAGE_KERNEL True MAX_SCHEDULE_TIMEOUT
                 \<in> set evs"
    by (auto simp: dma_buf_map_attachment_def dma_buf_attachment_is_dynamic_def Let_def
        split: option.splits sum.splits prod.splits if_splits
        dest!: map_error_unpin_result map_error_unmap_result map_finish_result)
  from wait_timeout_unbounded [OF w] ret have "0 < ret" by (auto simp: ERESTARTSYS_def)
  from wait_timeout_success(1,2) [OF w this] r b2 evs
  show "\<exists>b'. r = Some b'
          \<and> Ev_dma_resv_wait_timeout DMA_RESV_USAGE_KERNEL True MAX_SCHEDULE_TIMEOUT \<in> set evs
          \<and> (\<forall>(f, u) \<in> set (fences (resv b')). u = DMA_RESV_USAGE_KERNEL \<longrightarrow> signaled f)
          \<and> map (\<lambda>(f, u). (seqno f, u)) (fences (resv b'))
              = map (\<lambda>(f, u). (seqno f, u)) (fences (resv dmabuf))"
    by (simp add: usage_covers_kernel)
next
  assume a: "importer_ops att \<noteq> None
      \<and> dma_buf_map_attachment cfg w (Some att) (Some dmabuf) direction = Inr (p, r, evs)"
  then show "(\<forall>q i t. Ev_dma_resv_wait_timeout q i t \<notin> set evs)
        \<and> (\<exists>b'. r = Some b' \<and> resv b' = resv dmabuf)"
    by (auto simp: dma_buf_map_attachment_def dma_buf_attachment_is_dynamic_def Let_def
        split: option.splits sum.splits prod.splits if_splits
        dest!: map_error_unpin_result map_error_unmap_result map_finish_result)
qed

lemma demo_map_static:
  "dma_buf_map_attachment demo_cfg Fences_signal (Some demo_att) (Some demo_busy_buf)
       DMA_FROM_DEVICE
     = Inr (PTR demo_sgt,
            Some (demo_busy_buf\<lparr>priv := 1, resv := \<lparr>fences =
              [(\<lparr>seqno = 1, signaled = True, cb_list = []\<rparr>, DMA_RESV_USAGE_KERNEL),
               (\<lparr>seqno = 2, signaled = False, cb_list = []\<rparr>, DMA_RESV_USAGE_WRITE),
               (\<lparr>seqno = 3, signaled = False, cb_list = []\<rparr>, DMA_RESV_USAGE_READ)],
              max_fences = 4\<rparr>\<rparr>),
            [Ev_map_dma_buf 7 DMA_FROM_DEVICE,
             Ev_dma_resv_wait_timeout DMA_RESV_USAGE_KERNEL True MAX_SCHEDULE_TIMEOUT])"
  by (simp add: Let_def dma_buf_map_attachment_def map_finish_def dma_buf_pin_on_map_def
      dma_buf_attachment_is_dynamic_def dma_resv_wait_timeout_def
      dma_resv_test_signaled_def fences_signal_def mangle_sg_table_def sg_debug_check_def
      demo_cfg_def demo_att_def demo_busy_buf_def demo_buf_def demo_ops_def ops_none_def
      demo_fences_def demo_sgt_def usage_covers_def PAGE_ALIGNED_def PAGE_SIZE_def
      PAGE_SHIFT_def)

lemma demo_map_dynamic:
  "dma_buf_map_attachment demo_cfg Fences_signal (Some demo_dyn_att) (Some demo_busy_buf)
       DMA_FROM_DEVICE
     = Inr (PTR demo_sgt, Some (demo_busy_buf\<lparr>priv := 1\<rparr>),
            [Ev_map_dma_buf 8 DMA_FROM_DEVICE])"
  by (simp add: Let_def dma_buf_map_attachment_def map_finish_def dma_buf_pin_on_map_def
      dma_buf_attachment_is_dynamic_def mangle_sg_table_def sg_debug_check_def
      demo_cfg_def demo_dyn_att_def demo_busy_buf_def demo_buf_def demo_ops_def ops_none_def
      demo_sgt_def PAGE_ALIGNED_def PAGE_SIZE_def PAGE_SHIFT_def)

theorem map_static_waits_witness:
  "importer_ops demo_att = None
   \<and> dma_buf_map_attachment demo_cfg Fences_signal (Some demo_att) (Some demo_busy_buf)
        DMA_FROM_DEVICE
      = Inr (PTR demo_sgt,
            Some (demo_busy_buf\<lparr>priv := 1, resv := \<lparr>fences =
              [(\<lparr>seqno = 1, signaled = True, cb_list = []\<rparr>, DMA_RESV_USAGE_KERNEL),
               (\<lparr>seqno = 2, signaled = False, cb_list = []\<rparr>, DMA_RESV_USAGE_WRITE),
               (\<lparr>seqno = 3, signaled = False, cb_list = []\<rparr>, DMA_RESV_USAGE_READ)],
              max_fences = 4\<rparr>\<rparr>),
            [Ev_map_dma_buf 7 DMA_FROM_DEVICE,
             Ev_dma_resv_wait_timeout DMA_RESV_USAGE_KERNEL True MAX_SCHEDULE_TIMEOUT])
   \<and> importer_ops demo_dyn_att \<noteq> None
   \<and> dma_buf_map_attachment demo_cfg Fences_signal (Some demo_dyn_att) (Some demo_busy_buf)
        DMA_FROM_DEVICE
      = Inr (PTR demo_sgt, Some (demo_busy_buf\<lparr>priv := 1\<rparr>),
            [Ev_map_dma_buf 8 DMA_FROM_DEVICE])
   \<and> (\<exists>b'. Some (demo_busy_buf\<lparr>priv := 1\<rparr>) = Some b' \<and> resv b' = resv demo_busy_buf)"
  using map_static_waits [where att = demo_att and dmabuf = demo_busy_buf
      and cfg = demo_cfg and w = Fences_signal and direction = DMA_FROM_DEVICE]
    map_static_waits [where att = demo_dyn_att and dmabuf = demo_busy_buf
      and cfg = demo_cfg and w = Fences_signal and direction = DMA_FROM_DEVICE]
    demo_map_static demo_map_dynamic
  by (simp add: demo_att_def demo_dyn_att_def)

text \<open>
  C3. Let map pin implicitly (\<open>dma_buf_pin_on_map\<close>) and let the pin hook succeed.
  If \<open>dma_buf_map_attachment\<close> then fails, that is, returns an error pointer
  (\<open>IS_ERR\<close>), it has called the unpin hook last. Either the map hook failed: it
  returned a null pointer, reported as \<open>-ENOMEM\<close>, or an error pointer, passed on;
  then the hooks called are pin, map, unpin. Or the map hook returned a pointer that is
  neither, the attachment is static and the fence wait was interrupted; then the unmap
  hook was called with that pointer before the unpin hook, and \<open>-ERESTARTSYS\<close> is
  returned. The hooks were called once each, in that order, on the exporter's data.
\<close>

theorem map_failure_unwinds:
  fixes dmabuf :: "('x, 'y) dma_buf"
  assumes pom: "dma_buf_pin_on_map cfg dmabuf att"
    and pin: "pin (ops dmabuf) = Some pin_hook" "pin_hook (node att) (priv dmabuf) = (0, x1)"
    and res: "dma_buf_map_attachment cfg w (Some att) (Some dmabuf) direction = Inr (p, r, evs)"
    and fail: "IS_ERR p"
  shows "\<exists>map_hook unpin_hook sg0 x2 b'.
      map_dma_buf (ops dmabuf) = Some map_hook \<and> unpin (ops dmabuf) = Some unpin_hook
      \<and> map_hook (node att) direction x1 = (sg0, x2) \<and> r = Some b'
      \<and> (if ptr_is_null sg0 \<or> IS_ERR sg0
         then p = (if ptr_is_null sg0 then ERR_PTR (- ENOMEM) else sg0)
              \<and> evs = [Ev_pin (node att), Ev_map_dma_buf (node att) direction,
                       Ev_unpin (node att)]
              \<and> b' = dmabuf\<lparr>priv := unpin_hook (node att) x2\<rparr>
         else (\<exists>unmap_hook. unmap_dma_buf (ops dmabuf) = Some unmap_hook
                 \<and> importer_ops att = None
                 \<and> p = ERR_PTR (- ERESTARTSYS)
                 \<and> evs = [Ev_pin (node att), Ev_map_dma_buf (node att) direction,
                          Ev_dma_resv_wait_timeout DMA_RESV_USAGE_KERNEL True
                            MAX_SCHEDULE_TIMEOUT,
                          Ev_unmap_dma_buf (node att) sg0 direction, Ev_unpin (node att)]
                 \<and> b' = dmabuf\<lparr>priv :=
                          unpin_hook (node att) (unmap_hook (node att) sg0 direction x2)\<rparr>))"
proof -
  from res pom pin obtain map_hook where mh: "map_dma_buf (ops dmabuf) = Some map_hook"
    by (auto simp: dma_buf_map_attachment_def split: option.splits)
  obtain sg0 x2 where m: "map_hook (node att) direction x1 = (sg0, x2)"
    by (cases "map_hook (node att) direction x1")
  have pom2: "dma_buf_pin_on_map cfg (dmabuf\<lparr>priv := y\<rparr>) att" for y
    using pom by (simp add: dma_buf_pin_on_map_def)
  have enomem: "IS_ERR (ERR_PTR (- ENOMEM) :: sg_table ptr)"
    by (simp add: ENOMEM_def MAX_ERRNO_def)
  consider (null) "ptr_is_null sg0" | (err) "\<not> ptr_is_null sg0" "IS_ERR sg0"
    | (table) "\<not> ptr_is_null sg0" "\<not> IS_ERR sg0"
    by blast
  then show ?thesis
  proof cases
    case null
    with res pom pin mh m pom2 enomem show ?thesis
      by (auto simp: dma_buf_map_attachment_def map_error_unpin_def Let_def
          split: option.splits)
  next
    case err
    with res pom pin mh m pom2 show ?thesis
      by (auto simp: dma_buf_map_attachment_def map_error_unpin_def Let_def
          split: option.splits)
  next
    case table
    have nofin: "map_finish cfg sg0 b es \<noteq> Inr (p, r, evs)"
      for b :: "('x, 'y) dma_buf" and es
      using table fail
      by (cases sg0) (auto simp: map_finish_def split: if_splits)
    show ?thesis
    proof (cases "dma_buf_attachment_is_dynamic att")
      case True
      with res pom pin mh m table nofin show ?thesis
        by (auto simp: dma_buf_map_attachment_def Let_def)
    next
      case False
      obtain ret b3 where
        w: "dma_resv_wait_timeout w (dmabuf\<lparr>priv := x2\<rparr>) DMA_RESV_USAGE_KERNEL True
              MAX_SCHEDULE_TIMEOUT = (ret, b3)"
        by (cases "dma_resv_wait_timeout w (dmabuf\<lparr>priv := x2\<rparr>) DMA_RESV_USAGE_KERNEL True
              MAX_SCHEDULE_TIMEOUT")
      from res pom pin mh m table False w nofin have neg: "ret < 0"
        by (auto simp: dma_buf_map_attachment_def Let_def split: if_splits)
      with wait_timeout_unbounded [OF w] have ret: "ret = - ERESTARTSYS"
        and b3: "b3 = dmabuf\<lparr>priv := x2\<rparr>"
        by auto
      from res pom pin mh m table False w neg ret b3 pom2 show ?thesis
        by (auto simp: dma_buf_map_attachment_def map_error_unmap_def map_error_unpin_def
            dma_buf_attachment_is_dynamic_def Let_def split: option.splits)
    qed
  qed
qed

lemma pin_buf_pin_on_map: "dma_buf_pin_on_map cfg (pin_buf res) demo_att"
  by (simp add: dma_buf_pin_on_map_def dma_buf_attachment_is_dynamic_def pin_buf_def
      pin_ops_def ops_none_def demo_att_def)

lemma pin_buf_map_fails:
  "dma_buf_map_attachment demo_cfg Fences_signal (Some demo_att)
       (Some (pin_buf (ERR_PTR (- EBUSY)))) DMA_TO_DEVICE
     = Inr (ERR_PTR (- EBUSY), Some ((pin_buf (ERR_PTR (- EBUSY)))\<lparr>priv := [1, 2, 4]\<rparr>),
            [Ev_pin 7, Ev_map_dma_buf 7 DMA_TO_DEVICE, Ev_unpin 7])"
  by (simp add: Let_def dma_buf_map_attachment_def map_error_unpin_def dma_buf_pin_on_map_def
      dma_buf_attachment_is_dynamic_def pin_buf_def pin_ops_def ops_none_def demo_att_def
      demo_cfg_def EBUSY_def MAX_ERRNO_def)

lemma pin_buf_map_null:
  "dma_buf_map_attachment demo_cfg Fences_signal (Some demo_att)
       (Some (pin_buf (ERR_PTR 0))) DMA_TO_DEVICE
     = Inr (ERR_PTR (- ENOMEM), Some ((pin_buf (ERR_PTR 0))\<lparr>priv := [1, 2, 4]\<rparr>),
            [Ev_pin 7, Ev_map_dma_buf 7 DMA_TO_DEVICE, Ev_unpin 7])"
  by (simp add: Let_def dma_buf_map_attachment_def map_error_unpin_def dma_buf_pin_on_map_def
      dma_buf_attachment_is_dynamic_def pin_buf_def pin_ops_def ops_none_def demo_att_def
      demo_cfg_def ENOMEM_def MAX_ERRNO_def)

lemma pin_buf_wait_interrupted:
  "dma_buf_map_attachment demo_cfg Signal_pending (Some demo_att)
       (Some (pin_buf (PTR demo_sgt))) DMA_TO_DEVICE
     = Inr (ERR_PTR (- ERESTARTSYS), Some ((pin_buf (PTR demo_sgt))\<lparr>priv := [1, 2, 3, 4]\<rparr>),
            [Ev_pin 7, Ev_map_dma_buf 7 DMA_TO_DEVICE,
             Ev_dma_resv_wait_timeout DMA_RESV_USAGE_KERNEL True MAX_SCHEDULE_TIMEOUT,
             Ev_unmap_dma_buf 7 (PTR demo_sgt) DMA_TO_DEVICE, Ev_unpin 7])"
  by (simp add: Let_def dma_buf_map_attachment_def map_error_unpin_def map_error_unmap_def
      dma_buf_pin_on_map_def dma_buf_attachment_is_dynamic_def dma_resv_wait_timeout_def
      dma_resv_test_signaled_def pin_buf_def pin_ops_def ops_none_def demo_att_def
      demo_cfg_def demo_fences_def usage_covers_def ERESTARTSYS_def)

text \<open>
  A pointer below the error range is no error pointer: with the debug blocks compiled
  out, a map hook returning \<open>(void *)-4096\<close> makes \<open>dma_buf_map_attachment\<close> wait
  for the fences and return that pointer, the buffer left pinned, as after any
  successful map.
\<close>

lemma pin_buf_map_below_error_range:
  "\<not> IS_ERR (ERR_PTR (- 4096) :: sg_table ptr)"
  "dma_buf_map_attachment
       \<lparr>CONFIG_DMABUF_MOVE_NOTIFY = True, CONFIG_DMABUF_DEBUG = False,
        CONFIG_DMA_API_DEBUG = False\<rparr>
       Fences_signal (Some demo_att) (Some (pin_buf (ERR_PTR (- 4096)))) DMA_TO_DEVICE
     = Inr (ERR_PTR (- 4096),
            Some ((pin_buf (ERR_PTR (- 4096)))\<lparr>priv := [1, 2],
               resv := \<lparr>fences =
                 [(\<lparr>seqno = 1, signaled = True, cb_list = []\<rparr>, DMA_RESV_USAGE_KERNEL),
                  (\<lparr>seqno = 2, signaled = False, cb_list = []\<rparr>, DMA_RESV_USAGE_WRITE),
                  (\<lparr>seqno = 3, signaled = False, cb_list = []\<rparr>, DMA_RESV_USAGE_READ)],
                 max_fences = 4\<rparr>\<rparr>),
            [Ev_pin 7, Ev_map_dma_buf 7 DMA_TO_DEVICE,
             Ev_dma_resv_wait_timeout DMA_RESV_USAGE_KERNEL True MAX_SCHEDULE_TIMEOUT])"
  by (simp_all add: Let_def dma_buf_map_attachment_def map_finish_def dma_buf_pin_on_map_def
      dma_buf_attachment_is_dynamic_def dma_resv_wait_timeout_def
      dma_resv_test_signaled_def fences_signal_def pin_buf_def pin_ops_def ops_none_def
      demo_att_def demo_fences_def usage_covers_def MAX_ERRNO_def)

theorem map_failure_unwinds_witness:
  "dma_buf_pin_on_map demo_cfg (pin_buf (ERR_PTR (- EBUSY))) demo_att
   \<and> IS_ERR (ERR_PTR (- EBUSY) :: sg_table ptr)
   \<and> dma_buf_map_attachment demo_cfg Fences_signal (Some demo_att)
       (Some (pin_buf (ERR_PTR (- EBUSY)))) DMA_TO_DEVICE
     = Inr (ERR_PTR (- EBUSY), Some ((pin_buf (ERR_PTR (- EBUSY)))\<lparr>priv := [1, 2, 4]\<rparr>),
            [Ev_pin 7, Ev_map_dma_buf 7 DMA_TO_DEVICE, Ev_unpin 7])
   \<and> dma_buf_pin_on_map demo_cfg (pin_buf (ERR_PTR 0)) demo_att
   \<and> IS_ERR (ERR_PTR (- ENOMEM) :: sg_table ptr)
   \<and> dma_buf_map_attachment demo_cfg Fences_signal (Some demo_att)
       (Some (pin_buf (ERR_PTR 0))) DMA_TO_DEVICE
     = Inr (ERR_PTR (- ENOMEM), Some ((pin_buf (ERR_PTR 0))\<lparr>priv := [1, 2, 4]\<rparr>),
            [Ev_pin 7, Ev_map_dma_buf 7 DMA_TO_DEVICE, Ev_unpin 7])
   \<and> dma_buf_pin_on_map demo_cfg (pin_buf (PTR demo_sgt)) demo_att
   \<and> IS_ERR (ERR_PTR (- ERESTARTSYS) :: sg_table ptr)
   \<and> dma_buf_map_attachment demo_cfg Signal_pending (Some demo_att)
       (Some (pin_buf (PTR demo_sgt))) DMA_TO_DEVICE
     = Inr (ERR_PTR (- ERESTARTSYS), Some ((pin_buf (PTR demo_sgt))\<lparr>priv := [1, 2, 3, 4]\<rparr>),
            [Ev_pin 7, Ev_map_dma_buf 7 DMA_TO_DEVICE,
             Ev_dma_resv_wait_timeout DMA_RESV_USAGE_KERNEL True MAX_SCHEDULE_TIMEOUT,
             Ev_unmap_dma_buf 7 (PTR demo_sgt) DMA_TO_DEVICE, Ev_unpin 7])
   \<and> (\<exists>unpin_hook. unpin (ops (pin_buf (ERR_PTR (- EBUSY)))) = Some unpin_hook
         \<and> unpin_hook 7 [1, 2] = [1, 2, 4])
   \<and> (\<exists>unpin_hook unmap_hook. unpin (ops (pin_buf (PTR demo_sgt))) = Some unpin_hook
         \<and> unmap_dma_buf (ops (pin_buf (PTR demo_sgt))) = Some unmap_hook
         \<and> unpin_hook 7 (unmap_hook 7 (PTR demo_sgt) DMA_TO_DEVICE [1, 2]) = [1, 2, 3, 4])"
proof -
  have pin: "pin (ops (pin_buf res)) = Some (\<lambda>a x. (0, x @ [1]))" for res
    by (simp add: pin_buf_def pin_ops_def ops_none_def)
  have call: "(\<lambda>a x. (0 :: int, x @ [1 :: nat])) (node demo_att) (priv (pin_buf res))
                = (0, [1])" for res
    by (simp add: pin_buf_def)
  have f1: "IS_ERR (ERR_PTR (- EBUSY) :: sg_table ptr)"
    and f2: "IS_ERR (ERR_PTR (- ERESTARTSYS) :: sg_table ptr)"
    and f3: "IS_ERR (ERR_PTR (- ENOMEM) :: sg_table ptr)"
    by (simp_all add: EBUSY_def ERESTARTSYS_def ENOMEM_def MAX_ERRNO_def)
  show ?thesis
    using map_failure_unwinds [OF pin_buf_pin_on_map pin call pin_buf_map_fails f1]
      map_failure_unwinds [OF pin_buf_pin_on_map pin call pin_buf_map_null f3]
      map_failure_unwinds [OF pin_buf_pin_on_map pin call pin_buf_wait_interrupted f2]
      pin_buf_pin_on_map pin_buf_map_fails pin_buf_map_null pin_buf_wait_interrupted f1 f2 f3
    by (simp add: pin_buf_def pin_ops_def ops_none_def demo_att_def)
qed

lemma mangle_sg_table_dma:
  "map (\<lambda>sg. (dma_address sg, dma_length sg)) (sgl (mangle_sg_table cfg t))
     = map (\<lambda>sg. (dma_address sg, dma_length sg)) (sgl t)"
  "nents (mangle_sg_table cfg t) = nents t"
proof -
  have "map (\<lambda>sg. (dma_address sg, dma_length sg))
          (map (\<lambda>sg. sg\<lparr>page_link := page_link sg XOR NOT 255\<rparr>) (take n xs) @ drop n xs)
        = map (\<lambda>sg. (dma_address sg, dma_length sg)) (take n xs @ drop n xs)"
    for n and xs :: "scatterlist list"
    by (simp add: comp_def del: append_take_drop_id)
  then show "map (\<lambda>sg. (dma_address sg, dma_length sg)) (sgl (mangle_sg_table cfg t))
     = map (\<lambda>sg. (dma_address sg, dma_length sg)) (sgl t)"
    by (simp add: mangle_sg_table_def)
  show "nents (mangle_sg_table cfg t) = nents t"
    by (simp add: mangle_sg_table_def)
qed

lemma sg_table_page_aligned_dma:
  "sg_table_page_aligned t
     = list_all (\<lambda>(a, l). PAGE_ALIGNED a \<and> PAGE_ALIGNED (ucast l))
         (take (nents t) (map (\<lambda>sg. (dma_address sg, dma_length sg)) (sgl t)))"
  by (simp add: sg_table_page_aligned_def take_map list_all_iff)

lemma mangle_sg_table_aligned:
  "sg_table_page_aligned (mangle_sg_table cfg t) = sg_table_page_aligned t"
  by (simp add: sg_table_page_aligned_dma mangle_sg_table_dma)

text \<open>
  A successful \<open>dma_buf_map_attachment\<close> returns the table the exporter's
  \<open>map_dma_buf\<close> hook produced, with the same entry count, DMA addresses and
  lengths: the returned region is page aligned exactly when the exporter's table is.
\<close>

lemma map_returns_exporter_table:
  fixes dmabuf :: "('x, 'y) dma_buf"
  assumes res: "dma_buf_map_attachment cfg w (Some att) (Some dmabuf) direction
                  = Inr (PTR sgt, r, evs)"
  shows "\<exists>map_hook x sgt0 x'.
      map_dma_buf (ops dmabuf) = Some map_hook
      \<and> map_hook (node att) direction x = (PTR sgt0, x')
      \<and> sgt = mangle_sg_table cfg sgt0
      \<and> map (\<lambda>sg. (dma_address sg, dma_length sg)) (sgl sgt)
          = map (\<lambda>sg. (dma_address sg, dma_length sg)) (sgl sgt0)
      \<and> nents sgt = nents sgt0
      \<and> sg_table_page_aligned sgt = sg_table_page_aligned sgt0"
proof -
  from res obtain map_hook x sgt0 x' where
    "map_dma_buf (ops dmabuf) = Some map_hook"
    "map_hook (node att) direction x = (PTR sgt0, x')"
    "sgt = mangle_sg_table cfg sgt0"
    by (auto simp: dma_buf_map_attachment_def Let_def
        split: option.splits sum.splits prod.splits ptr.splits if_splits
        dest!: map_error_unpin_result map_error_unmap_result map_finish_result)
  then show ?thesis
    by (intro exI [of _ map_hook] exI [of _ x] exI [of _ sgt0] exI [of _ x'])
       (simp add: mangle_sg_table_dma mangle_sg_table_aligned)
qed

lemma demo_sgt_aligned: "sg_table_page_aligned demo_sgt"
  by (simp add: sg_table_page_aligned_def demo_sgt_def PAGE_ALIGNED_def PAGE_SIZE_def
      PAGE_SHIFT_def)

lemma odd_sgt_unaligned: "\<not> sg_table_page_aligned odd_sgt"
  by (simp add: sg_table_page_aligned_def odd_sgt_def PAGE_ALIGNED_def PAGE_SIZE_def
      PAGE_SHIFT_def)

text \<open>
  The scenario of a 4096-byte buffer with no fence pending, mapped through a static
  attachment by an exporter that maps it as one aligned 4096-byte entry: the map returns
  that entry even when a signal is pending, that is, without sleeping.
\<close>

lemma demo_map_idle:
  "dma_buf_map_attachment demo_cfg Signal_pending (Some demo_att) (Some demo_buf)
       DMA_FROM_DEVICE
     = Inr (PTR demo_sgt, Some (demo_buf\<lparr>priv := 1\<rparr>),
            [Ev_map_dma_buf 7 DMA_FROM_DEVICE,
             Ev_dma_resv_wait_timeout DMA_RESV_USAGE_KERNEL True MAX_SCHEDULE_TIMEOUT])"
  "buf_size demo_buf = 4096"
  "map (\<lambda>sg. (dma_address sg, dma_length sg)) (sgl demo_sgt) = [(65536, 4096)]"
  by (simp_all add: Let_def dma_buf_map_attachment_def map_finish_def dma_buf_pin_on_map_def
      dma_buf_attachment_is_dynamic_def dma_resv_wait_timeout_def
      dma_resv_test_signaled_def mangle_sg_table_def sg_debug_check_def
      demo_cfg_def demo_att_def demo_buf_def demo_ops_def ops_none_def resv_empty_def
      demo_sgt_def PAGE_ALIGNED_def PAGE_SIZE_def PAGE_SHIFT_def)

text \<open>
  C8. The kernel-doc of \<open>dma_buf_map_attachment\<close> promises that on success the
  DMA addresses and lengths of the returned scatterlist are page aligned. The function
  does not see to it. Here the exporter of a 4096-byte buffer with no fence
  pending maps it as one entry with DMA address 65537 and length 3; the map through a
  static attachment succeeds and returns exactly that table, which is not page aligned.
  With \<open>CONFIG_DMA_API_DEBUG\<close> set, as here, the only reaction is a debug message.
\<close>

theorem map_returns_unaligned_table:
  "dma_buf_map_attachment demo_cfg Fences_signal (Some demo_att) (Some odd_buf)
       DMA_FROM_DEVICE
     = Inr (PTR odd_sgt, Some (odd_buf\<lparr>priv := 1\<rparr>),
            [Ev_map_dma_buf 7 DMA_FROM_DEVICE,
             Ev_dma_resv_wait_timeout DMA_RESV_USAGE_KERNEL True MAX_SCHEDULE_TIMEOUT,
             Ev_pr_debug 65537 3])
   \<and> buf_size odd_buf = 4096
   \<and> fences (resv odd_buf) = []
   \<and> map (\<lambda>sg. (dma_address sg, dma_length sg)) (sgl odd_sgt) = [(65537, 3)]
   \<and> \<not> sg_table_page_aligned odd_sgt"
  using odd_sgt_unaligned
  by (simp add: Let_def dma_buf_map_attachment_def map_finish_def dma_buf_pin_on_map_def
      dma_buf_attachment_is_dynamic_def dma_resv_wait_timeout_def
      dma_resv_test_signaled_def mangle_sg_table_def sg_debug_check_def
      demo_cfg_def demo_att_def odd_buf_def demo_buf_def demo_ops_def ops_none_def
      resv_empty_def odd_sgt_def PAGE_ALIGNED_def PAGE_SIZE_def PAGE_SHIFT_def)

subsection \<open>Move notification\<close>

lemma move_notify_each_result:
  "move_notify_each atts = Inr (atts', evs) \<Longrightarrow>
     evs = map (\<lambda>a. Ev_move_notify (node a)) (filter dma_buf_attachment_is_dynamic atts)
     \<and> atts' = map (\<lambda>a. case importer_ops a of
                          None \<Rightarrow> a
                        | Some io \<Rightarrow>
                            (case move_notify io of
                               None \<Rightarrow> a
                             | Some hook \<Rightarrow>
                                 a\<lparr>importer_priv :=
                                     map_option (hook (node a)) (importer_priv a)\<rparr>)) atts"
proof (induction atts arbitrary: atts' evs)
  case Nil
  then show ?case by simp
next
  case (Cons a atts)
  from Cons.prems show ?case
    by (auto simp: dma_buf_attachment_is_dynamic_def
        split: option.splits sum.splits dest!: Cons.IH)
qed

lemma move_notify_each_returns:
  "\<forall>a \<in> set atts. attachment_valid a \<Longrightarrow> \<exists>atts' evs. move_notify_each atts = Inr (atts', evs)"
  by (induction atts) (auto simp: attachment_valid_def split: option.splits)

lemma count_move_notify:
  assumes "distinct (map node atts)" and "a \<in> set atts"
  shows "count_list (map (\<lambda>a. Ev_move_notify (node a)) (filter P atts))
           (Ev_move_notify (node a)) = (if P a then 1 else 0)"
  using assms
proof (induction atts)
  case Nil
  then show ?case by simp
next
  case (Cons b atts)
  have absent: "count_list (map (\<lambda>a. Ev_move_notify (node a)) (filter P atts))
                  (Ev_move_notify n) = 0" if "n \<notin> node ` set atts" for n
    using that by (induction atts) auto
  from Cons show ?case
    by (cases "a = b") (auto simp: absent)
qed

text \<open>
  C5. When \<open>dma_buf_move_notify\<close> returns, it has called the \<open>move_notify\<close>
  callback of the dynamic attachments of the buffer's list, in list order: each dynamic
  attachment of the list exactly once, no static attachment at all. The attachment list
  it leaves is the old one where the importer's data of every dynamic attachment is what
  one call of that attachment's callback, with the attachment as argument, makes of it;
  a static attachment is as it was, and nothing else of the buffer has changed. It does
  return when every dynamic attachment of the list supplies the callback, which
  \<open>dma_buf_dynamic_attach\<close> checks before it adds an attachment.
\<close>

theorem move_notify_dynamic_once:
  fixes dmabuf :: "('x, 'y) dma_buf"
  shows
  "(dma_buf_move_notify dmabuf = Inr (b', evs) \<longrightarrow>
      evs = map (\<lambda>a. Ev_move_notify (node a))
              (filter dma_buf_attachment_is_dynamic (attachments dmabuf))
      \<and> (distinct (map node (attachments dmabuf)) \<longrightarrow>
           (\<forall>a \<in> set (attachments dmabuf).
              count_list evs (Ev_move_notify (node a))
                = (if dma_buf_attachment_is_dynamic a then 1 else 0)))
      \<and> b' = dmabuf\<lparr>attachments :=
                  map (\<lambda>a. case importer_ops a of
                              None \<Rightarrow> a
                            | Some io \<Rightarrow>
                                (case move_notify io of
                                   None \<Rightarrow> a
                                 | Some hook \<Rightarrow>
                                     a\<lparr>importer_priv :=
                                         map_option (hook (node a)) (importer_priv a)\<rparr>))
                    (attachments dmabuf)\<rparr>
      \<and> map node (attachments b') = map node (attachments dmabuf)
      \<and> filter (\<lambda>a. \<not> dma_buf_attachment_is_dynamic a) (attachments b')
          = filter (\<lambda>a. \<not> dma_buf_attachment_is_dynamic a) (attachments dmabuf))
   \<and> ((\<forall>a \<in> set (attachments dmabuf). attachment_valid a) \<longrightarrow>
        (\<exists>b evs. dma_buf_move_notify dmabuf = Inr (b, evs)))"
proof (rule conjI; rule impI)
  let ?notified = "\<lambda>a :: 'y dma_buf_attachment. case importer_ops a of
                              None \<Rightarrow> a
                            | Some io \<Rightarrow>
                                (case move_notify io of
                                   None \<Rightarrow> a
                                 | Some hook \<Rightarrow>
                                     a\<lparr>importer_priv :=
                                         map_option (hook (node a)) (importer_priv a)\<rparr>)"
  assume "dma_buf_move_notify dmabuf = Inr (b', evs)"
  then obtain atts' where each: "move_notify_each (attachments dmabuf) = Inr (atts', evs)"
    and b': "b' = dmabuf\<lparr>attachments := atts'\<rparr>"
    by (auto simp: dma_buf_move_notify_def split: sum.splits)
  from move_notify_each_result [OF each]
  have evs: "evs = map (\<lambda>a. Ev_move_notify (node a))
              (filter dma_buf_attachment_is_dynamic (attachments dmabuf))"
    and atts': "atts' = map ?notified (attachments dmabuf)"
    by simp_all
  have node: "node (?notified a) = node a" for a
    by (simp split: option.splits)
  have static: "(\<not> dma_buf_attachment_is_dynamic (?notified a))
                  = (\<not> dma_buf_attachment_is_dynamic a)" for a
    by (simp add: dma_buf_attachment_is_dynamic_def split: option.splits)
  have same: "\<not> dma_buf_attachment_is_dynamic a \<Longrightarrow> ?notified a = a" for a
    by (simp add: dma_buf_attachment_is_dynamic_def)
  have "map node atts' = map node (attachments dmabuf)"
    unfolding atts' by (simp add: comp_def node)
  moreover have "filter (\<lambda>a. \<not> dma_buf_attachment_is_dynamic a) atts'
          = filter (\<lambda>a. \<not> dma_buf_attachment_is_dynamic a) (attachments dmabuf)"
    unfolding atts' filter_map comp_def static
    by (rule map_idI) (simp add: same)
  ultimately
  show "evs = map (\<lambda>a. Ev_move_notify (node a))
              (filter dma_buf_attachment_is_dynamic (attachments dmabuf))
      \<and> (distinct (map node (attachments dmabuf)) \<longrightarrow>
           (\<forall>a \<in> set (attachments dmabuf).
              count_list evs (Ev_move_notify (node a))
                = (if dma_buf_attachment_is_dynamic a then 1 else 0)))
      \<and> b' = dmabuf\<lparr>attachments := map ?notified (attachments dmabuf)\<rparr>
      \<and> map node (attachments b') = map node (attachments dmabuf)
      \<and> filter (\<lambda>a. \<not> dma_buf_attachment_is_dynamic a) (attachments b')
          = filter (\<lambda>a. \<not> dma_buf_attachment_is_dynamic a) (attachments dmabuf)"
    using evs atts' b' by (simp add: count_move_notify)
next
  assume "\<forall>a \<in> set (attachments dmabuf). attachment_valid a"
  from move_notify_each_returns [OF this]
  show "\<exists>b evs. dma_buf_move_notify dmabuf = Inr (b, evs)"
    by (auto simp: dma_buf_move_notify_def)
qed

lemma notify_buf_move_notify:
  "dma_buf_move_notify notify_buf
     = Inr (notify_buf\<lparr>attachments :=
              [\<lparr>node = 8, dev = 2, peer2peer = False,
                importer_ops = Some \<lparr>allow_peer2peer = False,
                                     move_notify = Some (\<lambda>a y. Suc y)\<rparr>,
                importer_priv = Some 1\<rparr>,
               \<lparr>node = 7, dev = 1, peer2peer = False, importer_ops = None,
                importer_priv = Some 5\<rparr>,
               \<lparr>node = 9, dev = 3, peer2peer = False,
                importer_ops = Some \<lparr>allow_peer2peer = False,
                                     move_notify = Some (\<lambda>a y. y + a)\<rparr>,
                importer_priv = Some 109\<rparr>]\<rparr>,
            [Ev_move_notify 8, Ev_move_notify 9])"
  by (simp add: dma_buf_move_notify_def notify_buf_def notify_atts_def)

theorem move_notify_dynamic_once_witness:
  "dma_buf_move_notify notify_buf
     = Inr (notify_buf\<lparr>attachments :=
              [\<lparr>node = 8, dev = 2, peer2peer = False,
                importer_ops = Some \<lparr>allow_peer2peer = False,
                                     move_notify = Some (\<lambda>a y. Suc y)\<rparr>,
                importer_priv = Some 1\<rparr>,
               \<lparr>node = 7, dev = 1, peer2peer = False, importer_ops = None,
                importer_priv = Some 5\<rparr>,
               \<lparr>node = 9, dev = 3, peer2peer = False,
                importer_ops = Some \<lparr>allow_peer2peer = False,
                                     move_notify = Some (\<lambda>a y. y + a)\<rparr>,
                importer_priv = Some 109\<rparr>]\<rparr>,
            [Ev_move_notify 8, Ev_move_notify 9])
   \<and> map importer_priv (attachments notify_buf) = [Some 0, Some 5, Some 100]
   \<and> map dma_buf_attachment_is_dynamic (attachments notify_buf) = [True, False, True]
   \<and> map attachment_valid (attachments notify_buf) = [True, True, True]
   \<and> map node (attachments notify_buf) = [8, 7, 9]
   \<and> distinct (map node (attachments notify_buf))
   \<and> map (\<lambda>a. count_list [Ev_move_notify 8, Ev_move_notify 9] (Ev_move_notify (node a)))
         (attachments notify_buf) = [1, 0, 1]"
  using move_notify_dynamic_once [of notify_buf _ "[Ev_move_notify 8, Ev_move_notify 9]",
      THEN conjunct1, rule_format, OF notify_buf_move_notify]
    move_notify_dynamic_once [of notify_buf notify_buf "[]", THEN conjunct2]
    notify_buf_move_notify
  by (simp add: notify_buf_def notify_atts_def dma_buf_attachment_is_dynamic_def
      attachment_valid_def)

text \<open>
  \<open>dma_buf_dynamic_attach\<close> keeps what the move notification relies on: a new
  attachment passes the check of its importer operations, and its address is new to the
  list when the allocator returns an address that is not in use. \<open>dma_buf_attach\<close>
  creates static attachments.
\<close>

lemma dynamic_attach_keeps_valid:
  assumes "dma_buf_dynamic_attach kzalloc_ok addr (Some dmabuf) dev_p imp_ops imp_priv
             = (PTR att, r, evs)"
    and "\<forall>a \<in> set (attachments dmabuf). attachment_valid a"
  shows "\<exists>b'. r = Some b' \<and> attachments b' = att # attachments dmabuf
           \<and> (\<forall>a \<in> set (attachments b'). attachment_valid a)
           \<and> node att = addr
           \<and> (distinct (map node (attachments dmabuf)) \<and> addr \<notin> node ` set (attachments dmabuf)
                \<longrightarrow> distinct (map node (attachments b')))"
  using assms
  by (auto simp: dma_buf_dynamic_attach_def attachment_valid_def Let_def
      split: option.splits prod.splits if_splits)

lemma attach_is_static:
  assumes "dma_buf_attach kzalloc_ok addr dmabuf_p dev_p = (PTR att, r, evs)"
  shows "\<not> dma_buf_attachment_is_dynamic att \<and> attachment_valid att"
  using assms
  by (auto simp: dma_buf_attach_def dma_buf_dynamic_attach_def attachment_valid_def
      dma_buf_attachment_is_dynamic_def Let_def split: option.splits prod.splits if_splits)

subsection \<open>Creating a buffer\<close>

lemma getfile_list: "dma_buf_getfile env g sz fl = (fr, g1, ev1) \<Longrightarrow> dmabuf_list g1 = dmabuf_list g"
  by (auto simp: dma_buf_getfile_def Let_def split: if_splits)

text \<open>
  C7. \<open>dma_buf_export\<close> returns \<open>-EINVAL\<close> whenever the operations are missing
  altogether, one of \<open>map_dma_buf\<close>, \<open>unmap_dma_buf\<close>, \<open>release\<close> is
  missing, or exactly one of \<open>pin\<close> and \<open>unpin\<close> is supplied. It has then
  called no kernel service (no module reference, file or memory was taken) and has left
  the global state, and with it the list of buffers, as it was. A buffer is put on the
  list only by a successful export, whose operations pass the check; no failing export
  changes the list.
\<close>

theorem export_validation:
  fixes g :: "('x, 'y) dmabuf_globals"
  shows
  "(info_ops exp_info = None
      \<or> (\<exists>xops. info_ops exp_info = Some xops
            \<and> (map_dma_buf xops = None \<or> unmap_dma_buf xops = None \<or> release xops = None
                \<or> (pin xops = None) \<noteq> (unpin xops = None)))
    \<longrightarrow> dma_buf_export env g exp_info = (ERR_PTR (- EINVAL), g, []))
   \<and> (dma_buf_export env g exp_info = (PTR b, g', evs)
    \<longrightarrow> info_ops exp_info = Some (ops b) \<and> ops_valid (ops b)
        \<and> dmabuf_list g' = b # dmabuf_list g)
   \<and> (dma_buf_export env g exp_info = (ERR_PTR e, g', evs)
    \<longrightarrow> dmabuf_list g' = dmabuf_list g)"
proof (intro conjI impI)
  assume "info_ops exp_info = None
      \<or> (\<exists>xops. info_ops exp_info = Some xops
            \<and> (map_dma_buf xops = None \<or> unmap_dma_buf xops = None \<or> release xops = None
                \<or> (pin xops = None) \<noteq> (unpin xops = None)))"
  then show "dma_buf_export env g exp_info = (ERR_PTR (- EINVAL), g, [])"
    by (auto simp: dma_buf_export_def split: option.splits)
next
  assume a: "dma_buf_export env g exp_info = (PTR b, g', evs)"
  then show "info_ops exp_info = Some (ops b)"
    by (auto simp: dma_buf_export_def Let_def split: option.splits if_splits prod.splits sum.splits)
  from a show "ops_valid (ops b)"
    by (auto simp: dma_buf_export_def ops_valid_def Let_def
        split: option.splits if_splits prod.splits sum.splits)
  from a show "dmabuf_list g' = b # dmabuf_list g"
    by (auto simp: dma_buf_export_def Let_def
        split: option.splits if_splits prod.splits sum.splits dest: getfile_list)
next
  assume "dma_buf_export env g exp_info = (ERR_PTR e, g', evs)"
  then show "dmabuf_list g' = dmabuf_list g"
    by (auto simp: dma_buf_export_def Let_def
        split: option.splits if_splits prod.splits sum.splits dest: getfile_list)
qed

lemma demo_export:
  "dma_buf_export demo_env demo_globals demo_info
     = (PTR demo_buf, \<lparr>dmabuf_list = [demo_buf], dmabuf_inode = 1\<rparr>,
        [Ev_try_module_get 0, Ev_alloc_anon_inode, Ev_alloc_file_pseudo, Ev_kzalloc,
         Ev_dma_resv_init, Ev_dma_buf_stats_setup])"
  by (simp add: dma_buf_export_def dma_buf_getfile_def demo_env_def demo_globals_def
      demo_info_def demo_buf_def demo_ops_def ops_none_def null_map_def resv_empty_def
      dma_resv_init_def O_ACCMODE_def O_NONBLOCK_def Let_def)

lemma demo_ops_fields:
  "map_dma_buf demo_ops \<noteq> None" "unmap_dma_buf demo_ops \<noteq> None"
  "release demo_ops \<noteq> None" "pin demo_ops = None" "unpin demo_ops = None"
  by (simp_all add: demo_ops_def ops_none_def)

lemma demo_info_fields: "info_ops demo_info = Some demo_ops" "info_priv demo_info = Some 0"
  by (simp_all add: demo_info_def)

theorem export_validation_witness:
  "dma_buf_export demo_env demo_globals
       (demo_info\<lparr>info_ops := Some (demo_ops\<lparr>release := None\<rparr>)\<rparr>)
     = (ERR_PTR (- EINVAL), demo_globals, [])
   \<and> dma_buf_export demo_env demo_globals
       (demo_info\<lparr>info_ops := Some (demo_ops\<lparr>pin := Some (\<lambda>a x. (0, x))\<rparr>)\<rparr>)
     = (ERR_PTR (- EINVAL), demo_globals, [])
   \<and> dma_buf_export demo_env demo_globals demo_info
     = (PTR demo_buf, \<lparr>dmabuf_list = [demo_buf], dmabuf_inode = 1\<rparr>,
        [Ev_try_module_get 0, Ev_alloc_anon_inode, Ev_alloc_file_pseudo, Ev_kzalloc,
         Ev_dma_resv_init, Ev_dma_buf_stats_setup])
   \<and> ops_valid (ops demo_buf)
   \<and> dmabuf_list demo_globals = []"
proof -
  have a: "dma_buf_export demo_env demo_globals
       (demo_info\<lparr>info_ops := Some (demo_ops\<lparr>release := None\<rparr>)\<rparr>)
     = (ERR_PTR (- EINVAL), demo_globals, [])"
    using export_validation [where env = demo_env and g = demo_globals
      and exp_info = "demo_info\<lparr>info_ops := Some (demo_ops\<lparr>release := None\<rparr>)\<rparr>",
      THEN conjunct1]
    by simp
  have b: "dma_buf_export demo_env demo_globals
       (demo_info\<lparr>info_ops := Some (demo_ops\<lparr>pin := Some (\<lambda>a x. (0, x))\<rparr>)\<rparr>)
     = (ERR_PTR (- EINVAL), demo_globals, [])"
    using export_validation [where env = demo_env and g = demo_globals
      and exp_info = "demo_info\<lparr>info_ops := Some (demo_ops\<lparr>pin := Some (\<lambda>a x. (0, x))\<rparr>)\<rparr>",
      THEN conjunct1]
    by (simp add: demo_ops_fields)
  have c: "ops_valid (ops demo_buf)"
    using export_validation [where env = demo_env and g = demo_globals
      and exp_info = demo_info and b = demo_buf
      and g' = "\<lparr>dmabuf_list = [demo_buf], dmabuf_inode = 1\<rparr>",
      THEN conjunct2, THEN conjunct1] demo_export
    by simp
  from a b c demo_export show ?thesis
    by (simp add: demo_globals_def)
qed

subsection \<open>Kernel mappings\<close>

lemma word_succ_nonzero: "(c :: 32 word) \<noteq> - 1 \<Longrightarrow> c + 1 \<noteq> 0"
  using eq_neg_iff_add_eq_0 [of c 1] by simp

lemma vmap_consistent_upd [simp]:
  "vmap_consistent (b\<lparr>priv := x\<rparr>) = vmap_consistent b"
  by (simp add: vmap_consistent_def)

lemma vmap_nested:
  assumes "vmap_consistent b" and "vmap (ops b) = Some hook" and "vmapping_counter b \<noteq> 0"
  shows "dma_buf_vmap (Some b) map_arg
           = Inr (0, vmap_ptr b, Some (b\<lparr>vmapping_counter := vmapping_counter b + 1\<rparr>), [])"
  using assms
  by (simp add: dma_buf_vmap_def vmap_consistent_def iosys_map_is_set_def Let_def)

lemma vmap_first:
  assumes "vmap_consistent b" and "vmap (ops b) = Some hook" and "vmapping_counter b = 0"
    and "hook (priv b) = ((ret, ptr), x)"
  shows "dma_buf_vmap (Some b) map_arg
           = (if ret \<noteq> 0 then Inr (ret, iosys_map_clear map_arg, Some (b\<lparr>priv := x\<rparr>), [Ev_vmap])
              else Inr (0, ptr, Some (b\<lparr>priv := x, vmap_ptr := ptr, vmapping_counter := 1\<rparr>),
                        [Ev_vmap]))"
  using assms
  by (simp add: dma_buf_vmap_def vmap_consistent_def Let_def)

lemma vmap_no_hook:
  "vmap (ops b) = None \<Longrightarrow>
     dma_buf_vmap (Some b) map_arg = Inr (- EINVAL, iosys_map_clear map_arg, Some b, [])"
  by (simp add: dma_buf_vmap_def Let_def)

lemma vunmap_result:
  assumes "vmap_consistent b"
  shows "dma_buf_vunmap (Some b) map_arg =
     (if vmapping_counter b = 0 \<or> \<not> iosys_map_is_equal (vmap_ptr b) map_arg then Inl BUG
      else if vmapping_counter b = 1
      then Inr (Some (b\<lparr>vmapping_counter := 0,
                         priv := (case vunmap (ops b) of None \<Rightarrow> priv b
                                  | Some hook \<Rightarrow> hook map_arg (priv b)),
                         vmap_ptr := iosys_map_clear (vmap_ptr b)\<rparr>),
                case vunmap (ops b) of None \<Rightarrow> [] | Some hook \<Rightarrow> [Ev_vunmap map_arg])
      else Inr (Some (b\<lparr>vmapping_counter := vmapping_counter b - 1\<rparr>), []))"
  using assms
  by (auto simp: dma_buf_vunmap_def vmap_consistent_def iosys_map_is_set_def Let_def
      split: option.splits)

text \<open>
  Where the kernel-mapping invariant does hold. Let the stored kernel mapping of a
  buffer be set exactly when its \<open>vmapping_counter\<close> is positive. If the
  exporter's \<open>vmap\<close> hook stores a mapping whenever it reports success and the
  counter is below its largest value, \<open>dma_buf_vmap\<close> returns and keeps that
  property: it calls the hook only when the counter is zero (setting the counter to one
  and storing the hook's mapping on success, leaving both on failure), and otherwise
  returns the stored mapping and adds one to the counter. \<open>dma_buf_vunmap\<close>,
  called on a mapped buffer with the stored mapping (anything else is a \<open>BUG\<close>),
  keeps the property too: it subtracts one from the counter, and calls the exporter's
  \<open>vunmap\<close> hook and clears the stored mapping only when the counter has come back
  to zero.
\<close>

lemma vmap_counter_invariant:
  fixes b :: "('x, 'y) dma_buf"
  assumes inv: "vmap_consistent b"
  shows
  "(vmap_hook_sets_map b \<and> vmapping_counter b \<noteq> - 1 \<longrightarrow>
      (\<exists>ret m b' evs. dma_buf_vmap (Some b) map_arg = Inr (ret, m, Some b', evs)
         \<and> vmap_consistent b'
         \<and> ((Ev_vmap \<in> set evs) = (vmap (ops b) \<noteq> None \<and> vmapping_counter b = 0))
         \<and> (vmap (ops b) \<noteq> None \<and> vmapping_counter b \<noteq> 0 \<longrightarrow>
               ret = 0 \<and> m = vmap_ptr b
               \<and> b' = b\<lparr>vmapping_counter := vmapping_counter b + 1\<rparr>)
         \<and> (vmap (ops b) \<noteq> None \<and> vmapping_counter b = 0 \<and> ret = 0 \<longrightarrow>
               vmapping_counter b' = 1 \<and> m = vmap_ptr b' \<and> iosys_map_is_set m)
         \<and> (ret \<noteq> 0 \<longrightarrow>
               vmapping_counter b' = vmapping_counter b \<and> vmap_ptr b' = vmap_ptr b)))
   \<and> (vmapping_counter b \<noteq> 0 \<and> iosys_map_is_equal (vmap_ptr b) map_arg \<longrightarrow>
      (\<exists>b' evs. dma_buf_vunmap (Some b) map_arg = Inr (Some b', evs)
         \<and> vmap_consistent b'
         \<and> vmapping_counter b' = vmapping_counter b - 1
         \<and> (vmapping_counter b = 1 \<longrightarrow>
               iosys_map_is_null (vmap_ptr b')
               \<and> evs = (case vunmap (ops b) of None \<Rightarrow> [] | Some hook \<Rightarrow> [Ev_vunmap map_arg]))
         \<and> (vmapping_counter b \<noteq> 1 \<longrightarrow>
               evs = [] \<and> vmap_ptr b' = vmap_ptr b \<and> priv b' = priv b)))
   \<and> ((dma_buf_vunmap (Some b) map_arg = Inl BUG)
        = (vmapping_counter b = 0 \<or> \<not> iosys_map_is_equal (vmap_ptr b) map_arg))"
proof (intro conjI impI)
  assume h: "vmap_hook_sets_map b \<and> vmapping_counter b \<noteq> - 1"
  show "\<exists>ret m b' evs. dma_buf_vmap (Some b) map_arg = Inr (ret, m, Some b', evs)
         \<and> vmap_consistent b'
         \<and> ((Ev_vmap \<in> set evs) = (vmap (ops b) \<noteq> None \<and> vmapping_counter b = 0))
         \<and> (vmap (ops b) \<noteq> None \<and> vmapping_counter b \<noteq> 0 \<longrightarrow>
               ret = 0 \<and> m = vmap_ptr b
               \<and> b' = b\<lparr>vmapping_counter := vmapping_counter b + 1\<rparr>)
         \<and> (vmap (ops b) \<noteq> None \<and> vmapping_counter b = 0 \<and> ret = 0 \<longrightarrow>
               vmapping_counter b' = 1 \<and> m = vmap_ptr b' \<and> iosys_map_is_set m)
         \<and> (ret \<noteq> 0 \<longrightarrow>
               vmapping_counter b' = vmapping_counter b \<and> vmap_ptr b' = vmap_ptr b)"
  proof (cases "vmap (ops b)")
    case None
    with inv show ?thesis by (simp add: vmap_no_hook EINVAL_def)
  next
    case (Some hook)
    show ?thesis
    proof (cases "vmapping_counter b = 0")
      case False
      with h have "vmapping_counter b + 1 \<noteq> 0" by (simp add: word_succ_nonzero)
      with inv False Some show ?thesis
        by (simp add: vmap_nested [OF inv Some False] vmap_consistent_def)
    next
      case True
      obtain ret ptr x where call: "hook (priv b) = ((ret, ptr), x)"
        by (metis prod.exhaust)
      from h Some call have "ret = 0 \<longrightarrow> iosys_map_is_set ptr"
        by (auto simp: vmap_hook_sets_map_def dest: spec [of _ "priv b"])
      with inv True Some show ?thesis
        by (simp add: vmap_first [OF inv Some True call] vmap_consistent_def)
    qed
  qed
next
  assume h: "vmapping_counter b \<noteq> 0 \<and> iosys_map_is_equal (vmap_ptr b) map_arg"
  have dec: "vmapping_counter b - 1 \<noteq> 0" if "vmapping_counter b \<noteq> 1"
    using that by simp
  from inv h show "\<exists>b' evs. dma_buf_vunmap (Some b) map_arg = Inr (Some b', evs)
         \<and> vmap_consistent b'
         \<and> vmapping_counter b' = vmapping_counter b - 1
         \<and> (vmapping_counter b = 1 \<longrightarrow>
               iosys_map_is_null (vmap_ptr b')
               \<and> evs = (case vunmap (ops b) of None \<Rightarrow> [] | Some hook \<Rightarrow> [Ev_vunmap map_arg]))
         \<and> (vmapping_counter b \<noteq> 1 \<longrightarrow>
               evs = [] \<and> vmap_ptr b' = vmap_ptr b \<and> priv b' = priv b)"
    by (cases "vmapping_counter b = 1")
       (simp_all add: vunmap_result [OF inv] vmap_consistent_def iosys_map_is_set_def
          iosys_map_is_null_def iosys_map_clear_def dec)
next
  from inv show "(dma_buf_vunmap (Some b) map_arg = Inl BUG)
        = (vmapping_counter b = 0 \<or> \<not> iosys_map_is_equal (vmap_ptr b) map_arg)"
    by (simp add: vunmap_result [OF inv])
qed

lemma vmap_buf_consistent: "vmap_consistent (vmap_buf n)"
  by (simp add: vmap_consistent_def vmap_buf_def iosys_map_is_set_def iosys_map_is_null_def
      null_map_def demo_kmap_def)

lemma vmap_buf_hook: "vmap_hook_sets_map (vmap_buf n)"
  by (simp add: vmap_hook_sets_map_def vmap_buf_def vmap_ops_def iosys_map_is_set_def
      iosys_map_is_null_def demo_kmap_def)

lemma vmap_buf_runs:
  "dma_buf_vmap (Some (vmap_buf 0)) null_map
     = Inr (0, demo_kmap, Some ((vmap_buf 1)\<lparr>priv := 1\<rparr>), [Ev_vmap])"
  "dma_buf_vmap (Some (vmap_buf 1)) null_map = Inr (0, demo_kmap, Some (vmap_buf 2), [])"
  "dma_buf_vunmap (Some (vmap_buf 2)) demo_kmap = Inr (Some (vmap_buf 1), [])"
  "dma_buf_vunmap (Some (vmap_buf 1)) demo_kmap
     = Inr (Some ((vmap_buf 0)\<lparr>priv := 1\<rparr>), [Ev_vunmap demo_kmap])"
  by (simp_all add: dma_buf_vmap_def dma_buf_vunmap_def vmap_buf_def vmap_ops_def
      demo_buf_def demo_ops_def ops_none_def iosys_map_is_set_def iosys_map_is_null_def
      iosys_map_is_equal_def iosys_map_clear_def null_map_def demo_kmap_def Let_def)

lemma vmap_buf_fields:
  "vmapping_counter (vmap_buf 1) = 1" "iosys_map_is_equal (vmap_ptr (vmap_buf 1)) demo_kmap"
  "vmap_consistent ((vmap_buf 0)\<lparr>priv := 1\<rparr>)"
  using vmap_buf_consistent [of 0] by (simp_all add: vmap_buf_def iosys_map_is_equal_def)

text \<open>
  C9. The \<open>BUG_ON\<close>s of \<open>dma_buf_vmap\<close> and \<open>dma_buf_vunmap\<close> assert
  that the stored kernel mapping is set exactly when the counter is positive. \<open>dma_buf_vmap\<close> itself breaks this in two ways, each time returning
  success from a buffer that had the property and leaving one on which the next
  \<open>dma_buf_vmap\<close> and the next \<open>dma_buf_vunmap\<close> run into a \<open>BUG_ON\<close>.
  It stores what the exporter's \<open>vmap\<close> hook returned with 0 without looking at
  it: when that is a null mapping the counter is one and the stored mapping unset. And it
  increments the \<open>unsigned\<close> counter without a guard: at \<open>2^32 - 1\<close> nested
  mappings one more wraps the counter to zero while the stored mapping stays set.
\<close>

theorem vmap_breaks_invariant:
  "vmap_consistent null_vmap_buf
   \<and> dma_buf_vmap (Some null_vmap_buf) null_map
       = Inr (0, null_map,
              Some (null_vmap_buf\<lparr>priv := 1, vmap_ptr := null_map, vmapping_counter := 1\<rparr>),
              [Ev_vmap])
   \<and> \<not> vmap_consistent
         (null_vmap_buf\<lparr>priv := 1, vmap_ptr := null_map, vmapping_counter := 1\<rparr>)
   \<and> dma_buf_vmap
         (Some (null_vmap_buf\<lparr>priv := 1, vmap_ptr := null_map, vmapping_counter := 1\<rparr>))
         null_map = Inl BUG
   \<and> dma_buf_vunmap
         (Some (null_vmap_buf\<lparr>priv := 1, vmap_ptr := null_map, vmapping_counter := 1\<rparr>))
         null_map = Inl BUG
   \<and> vmap_consistent (vmap_buf 4294967295)
   \<and> dma_buf_vmap (Some (vmap_buf 4294967295)) null_map
       = Inr (0, demo_kmap, Some ((vmap_buf 4294967295)\<lparr>vmapping_counter := 0\<rparr>), [])
   \<and> \<not> vmap_consistent ((vmap_buf 4294967295)\<lparr>vmapping_counter := 0\<rparr>)
   \<and> dma_buf_vmap (Some ((vmap_buf 4294967295)\<lparr>vmapping_counter := 0\<rparr>)) null_map
       = Inl BUG
   \<and> dma_buf_vunmap (Some ((vmap_buf 4294967295)\<lparr>vmapping_counter := 0\<rparr>)) demo_kmap
       = Inl BUG"
  by (simp add: dma_buf_vmap_def dma_buf_vunmap_def vmap_consistent_def null_vmap_buf_def
      vmap_buf_def vmap_ops_def demo_buf_def demo_ops_def ops_none_def iosys_map_is_set_def
      iosys_map_is_null_def iosys_map_is_equal_def iosys_map_clear_def null_map_def
      demo_kmap_def Let_def)

subsection \<open>Importing a sync file\<close>

lemma fold_add_fence:
  "fences (fold (\<lambda>f obj. dma_resv_add_fence obj f u) fs obj)
     = fences obj @ map (\<lambda>f. (f, u)) fs"
  "max_fences (fold (\<lambda>f obj. dma_resv_add_fence obj f u) fs obj) = max_fences obj"
  by (induction fs arbitrary: obj) (simp_all add: dma_resv_add_fence_def)

lemma num_fences_word:
  assumes "fs \<noteq> []" and "length fs < 2 ^ 32"
  shows "unat (word_of_nat (length fs) :: 32 word) = length fs"
    and "(0 :: 32 word) < word_of_nat (length fs)"
proof -
  show u: "unat (word_of_nat (length fs) :: 32 word) = length fs"
    using assms(2) by (simp add: unat_of_nat)
  have "unat (word_of_nat (length fs) :: 32 word) \<noteq> 0"
    using assms(1) u by simp
  then show "(0 :: 32 word) < word_of_nat (length fs)"
    using unat_gt_0 [of "word_of_nat (length fs) :: 32 word"]
    by (simp add: word_greater_zero_iff)
qed

text \<open>
  Where the import is all-or-none. Let the request pass the flag checks and let its
  descriptor unwrap to \<open>n \<ge> 1\<close> fences, with \<open>n\<close> in the range of the
  \<open>unsigned int\<close> that counts them. Then \<open>dma_buf_import_sync_file\<close> reserves
  room for \<open>n\<close> fences first. If that succeeds it returns 0 and has appended all
  \<open>n\<close> fences, in order, tagged with the requested usage (\<open>WRITE\<close> when the
  write flag is set, else \<open>READ\<close>), within the reserved capacity. If the
  reservation fails it returns \<open>-ENOMEM\<close> and the buffer, its fence set included,
  is as before.
\<close>

lemma import_all_or_none:
  fixes dmabuf :: "('x, 'y) dma_buf"
  assumes fl: "flags arg AND NOT DMA_BUF_SYNC_RW = 0" "flags arg AND DMA_BUF_SYNC_RW \<noteq> 0"
    and fence: "sync_file_get_fence (fd arg) = Some fs"
    and n: "fs \<noteq> []" "length fs < 2 ^ 32"
  shows "(let usage = (if flags arg AND DMA_BUF_SYNC_WRITE \<noteq> 0
                      then DMA_RESV_USAGE_WRITE else DMA_RESV_USAGE_READ);
             res = dma_buf_import_sync_file sync_file_get_fence alloc_ok dmabuf (Some arg);
             room = (alloc_ok
                     \<or> length (fences (resv dmabuf)) + length fs \<le> max_fences (resv dmabuf))
         in (room \<and> fst res = 0
               \<and> fences (resv (snd res)) = fences (resv dmabuf) @ map (\<lambda>f. (f, usage)) fs
               \<and> length (fences (resv (snd res))) \<le> max_fences (resv (snd res))
               \<and> (\<exists>obj. snd res = dmabuf\<lparr>resv := obj\<rparr>))
          \<or> (\<not> room \<and> fst res = - ENOMEM \<and> snd res = dmabuf))"
proof -
  let ?n = "word_of_nat (length fs) :: 32 word"
  from num_fences_word [OF n] have u: "unat ?n = length fs" and p: "0 < ?n" .
  show ?thesis
  proof (cases "alloc_ok
      \<or> length (fences (resv dmabuf)) + length fs \<le> max_fences (resv dmabuf)")
    case True
    then have "dma_resv_reserve_fences alloc_ok (resv dmabuf) (length fs)
                 = (0, (resv dmabuf)\<lparr>max_fences :=
                      (if length (fences (resv dmabuf)) + length fs \<le> max_fences (resv dmabuf)
                       then max_fences (resv dmabuf)
                       else length (fences (resv dmabuf)) + length fs)\<rparr>)"
      by (auto simp: dma_resv_reserve_fences_def)
    with True fl fence u p show ?thesis
      by (auto simp: dma_buf_import_sync_file_def Let_def fold_add_fence)
  next
    case False
    then have "dma_resv_reserve_fences alloc_ok (resv dmabuf) (length fs)
                 = (- ENOMEM, resv dmabuf)"
      by (auto simp: dma_resv_reserve_fences_def)
    with False fl fence u p show ?thesis
      by (auto simp: dma_buf_import_sync_file_def Let_def ENOMEM_def)
  qed
qed

lemma demo_import_arg_ok:
  "flags demo_import_arg AND NOT DMA_BUF_SYNC_RW = 0"
  "flags demo_import_arg AND DMA_BUF_SYNC_RW \<noteq> 0"
  "flags demo_import_arg AND DMA_BUF_SYNC_WRITE \<noteq> 0"
  "demo_sync_files (fd demo_import_arg) = Some demo_sync_fences"
  "demo_sync_fences \<noteq> []" "length demo_sync_fences < 2 ^ 32"
  by (simp_all add: demo_import_arg_def DMA_BUF_SYNC_RW_def DMA_BUF_SYNC_READ_def
      DMA_BUF_SYNC_WRITE_def demo_sync_files_def demo_sync_fences_def)

lemma demo_import_runs:
  "dma_buf_import_sync_file demo_sync_files True demo_buf (Some demo_import_arg)
     = (0, demo_buf\<lparr>resv := \<lparr>fences = map (\<lambda>f. (f, DMA_RESV_USAGE_WRITE)) demo_sync_fences,
                               max_fences = 2\<rparr>\<rparr>)"
  "dma_buf_import_sync_file demo_sync_files False demo_buf (Some demo_import_arg)
     = (- ENOMEM, demo_buf)"
  by (simp_all add: dma_buf_import_sync_file_def dma_resv_reserve_fences_def
      dma_resv_add_fence_def demo_import_arg_def DMA_BUF_SYNC_RW_def DMA_BUF_SYNC_READ_def
      DMA_BUF_SYNC_WRITE_def demo_sync_files_def demo_sync_fences_def demo_buf_def
      resv_empty_def Let_def ENOMEM_def)

lemma wrap_sync_fences_length: "length wrap_sync_fences = 2 ^ 32"
  by (simp add: wrap_sync_fences_def)

lemma wrap_num_fences: "(word_of_nat (length wrap_sync_fences) :: 32 word) = 0"
  unfolding wrap_sync_fences_length by simp

text \<open>
  C6. The import is meant to be all-or-none (capacity for every fence is reserved
  before any is added), but \<open>dma_buf_import_sync_file\<close> counts the fences in an \<open>unsigned int\<close> without
  a guard against its wrap-around. For a sync file that unwraps to \<open>2^32\<close> fences
  the count is 0: the function skips the reservation and the additions and returns 0,
  whether or not an allocation would have succeeded. No fence has been added and no
  error is returned.
\<close>

theorem import_count_wraps:
  "flags demo_import_arg AND NOT DMA_BUF_SYNC_RW = 0
   \<and> flags demo_import_arg AND DMA_BUF_SYNC_RW \<noteq> 0
   \<and> wrap_sync_files (fd demo_import_arg) = Some wrap_sync_fences
   \<and> length wrap_sync_fences = 2 ^ 32
   \<and> dma_buf_import_sync_file wrap_sync_files True demo_buf (Some demo_import_arg)
       = (0, demo_buf)
   \<and> dma_buf_import_sync_file wrap_sync_files False demo_buf (Some demo_import_arg)
       = (0, demo_buf)
   \<and> fences (resv demo_buf) = []"
  using wrap_num_fences wrap_sync_fences_length
  by (simp add: dma_buf_import_sync_file_def wrap_sync_files_def demo_import_arg_def
      DMA_BUF_SYNC_RW_def DMA_BUF_SYNC_READ_def DMA_BUF_SYNC_WRITE_def demo_buf_def
      resv_empty_def Let_def)

subsection \<open>Readiness polling\<close>

lemma slot_mask_nonzero: "slot_mask dcb \<noteq> 0"
  by (cases dcb) (simp_all add: slot_mask_def EPOLLIN_def EPOLLOUT_def)

lemma and_not_and_self: "((e :: 32 word) AND NOT k) AND k = 0"
  by (simp add: and.assoc)

lemma and_not_and_other:
  assumes "(e :: 32 word) AND k = 0"
  shows "(e AND NOT j) AND k = 0"
proof -
  have "(e AND NOT j) AND k = (e AND k) AND NOT j"
    by (simp add: ac_simps)
  with assms show ?thesis by simp
qed

lemma armed_upd [simp]:
  "armed d (set_slot_active dcb v b) = armed d b"
  "armed d (get_file b) = armed d b"
  "armed d (fput b) = armed d b"
  "armed d (b\<lparr>woken := ws\<rparr>) = armed d b"
  by (cases dcb; simp add: armed_def set_slot_active_def get_file_def fput_def)+

lemma slot_active_upd [simp]:
  "slot_active d (set_slot_active dcb v b) = (if d = dcb then v else slot_active d b)"
  "slot_active d (get_file b) = slot_active d b"
  "slot_active d (fput b) = slot_active d b"
  "slot_active d (b\<lparr>woken := ws\<rparr>) = slot_active d b"
  "slot_active d (b\<lparr>resv := obj\<rparr>) = slot_active d b"
  by (cases dcb; cases d; simp add: slot_active_def set_slot_active_def get_file_def fput_def)+

lemma poll_cb_effect [simp]:
  "armed d (dma_buf_poll_cb dcb b) = armed d b"
  "slot_active d (dma_buf_poll_cb dcb b) = (if d = dcb then 0 else slot_active d b)"
  by (simp_all add: dma_buf_poll_cb_def)

lemma fold_poll_cb_effect:
  "armed d (fold dma_buf_poll_cb cbs b) = armed d b"
  "slot_active d (fold dma_buf_poll_cb cbs b) = (if d \<in> set cbs then 0 else slot_active d b)"
  by (induction cbs arbitrary: b) auto

lemma poll_add_cb_each_count:
  "poll_add_cb_each fs q dcb = (queued, fs') \<Longrightarrow>
     count_list (concat (map (\<lambda>p. cb_list (fst p)) fs')) d
       = count_list (concat (map (\<lambda>p. cb_list (fst p)) fs)) d
         + (if queued \<and> d = dcb then 1 else 0)"
proof (induction fs arbitrary: queued fs')
  case Nil
  then show ?case by simp
next
  case (Cons p fs)
  obtain f u where p: "p = (f, u)" by (cases p)
  obtain q' fs0 where rec: "poll_add_cb_each fs q dcb = (q', fs0)"
    by (cases "poll_add_cb_each fs q dcb")
  from Cons.IH [OF rec] Cons.prems p rec show ?case
    by (auto simp: dma_fence_add_callback_def ENOENT_def split: if_splits)
qed

lemma signal_where_count:
  "dma_fence_signal_where P fs = (fs', cbs) \<Longrightarrow>
     count_list (concat (map (\<lambda>p. cb_list (fst p)) fs)) d
       = count_list (concat (map (\<lambda>p. cb_list (fst p)) fs')) d + count_list cbs d"
proof (induction fs arbitrary: fs' cbs)
  case Nil
  then show ?case by simp
next
  case (Cons p fs)
  obtain f u where p: "p = (f, u)" by (cases p)
  obtain fs0 cbs0 where rec: "dma_fence_signal_where P fs = (fs0, cbs0)"
    by (cases "dma_fence_signal_where P fs")
  from Cons.IH [OF rec] Cons.prems p rec show ?case
    by (auto split: if_splits)
qed

lemma fences_signal_effect:
  fixes b :: "('x, 'y) dma_buf"
  shows "\<exists>cbs. armed d b = armed d (fences_signal P b) + count_list cbs d
           \<and> slot_active d (fences_signal P b) = (if d \<in> set cbs then 0 else slot_active d b)"
proof -
  obtain fs cbs where s: "dma_fence_signal_where P (fences (resv b)) = (fs, cbs)"
    by (cases "dma_fence_signal_where P (fences (resv b))")
  have "armed d (fences_signal P b) = count_list (concat (map (\<lambda>p. cb_list (fst p)) fs)) d"
    using s by (simp add: fences_signal_def fold_poll_cb_effect) (simp add: armed_def)
  moreover have "slot_active d (fences_signal P b)
                   = (if d \<in> set cbs then 0 else slot_active d b)"
    using s by (simp add: fences_signal_def fold_poll_cb_effect)
  ultimately show ?thesis
    using signal_where_count [OF s, of d] by (auto simp: armed_def)
qed

lemma fences_signal_consistent:
  assumes "poll_consistent b"
  shows "poll_consistent (fences_signal P b)"
  unfolding poll_consistent_def
proof
  fix d
  from fences_signal_effect [of d b P] obtain cbs where
    a: "armed d b = armed d (fences_signal P b) + count_list cbs d"
    and s: "slot_active d (fences_signal P b) = (if d \<in> set cbs then 0 else slot_active d b)"
    by blast
  from assms have c: "armed d b = (if slot_active d b = 0 then 0 else 1)"
    by (simp add: poll_consistent_def)
  show "armed d (fences_signal P b) = (if slot_active d (fences_signal P b) = 0 then 0 else 1)"
  proof (cases "d \<in> set cbs")
    case True
    then have "0 < count_list cbs d" using count_list_0_iff [of cbs d] by auto
    with a c s True show ?thesis by (auto split: if_splits)
  next
    case False
    then have "count_list cbs d = 0" by (simp add: count_list_0_iff)
    with a c s False show ?thesis by simp
  qed
qed

lemma poll_slot_effect:
  fixes b :: "('x, 'y) dma_buf"
  assumes run: "dma_buf_poll_slot dcb (slot_mask dcb) w events b = (ev', b')"
  shows "d \<noteq> dcb \<Longrightarrow> armed d b' = armed d b \<and> slot_active d b' = slot_active d b"
    and "ev' = events \<or> ev' = events AND NOT (slot_mask dcb)"
    and "slot_active dcb b \<noteq> 0 \<Longrightarrow>
           ev' AND slot_mask dcb = 0 \<and> b' = b"
    and "slot_active dcb b = 0 \<Longrightarrow>
           (armed dcb b' = armed dcb b \<and> slot_active dcb b' = 0)
           \<or> (armed dcb b' = Suc (armed dcb b) \<and> slot_active dcb b' = slot_mask dcb
               \<and> ev' AND slot_mask dcb = 0)"
proof -
  let ?k = "slot_mask dcb"
  let ?b2 = "get_file (set_slot_active dcb ?k b)"
  obtain queued fs where add:
    "poll_add_cb_each (fences (resv ?b2)) (dma_resv_usage_rw w) dcb = (queued, fs)"
    by (cases "poll_add_cb_each (fences (resv ?b2)) (dma_resv_usage_rw w) dcb")
  have same: "fences (resv ?b2) = fences (resv b)"
    by (cases dcb) (simp_all add: get_file_def set_slot_active_def)
  have cnt: "count_list (concat (map (\<lambda>p. cb_list (fst p)) fs)) x
               = armed x b + (if queued \<and> x = dcb then 1 else 0)" for x
    using poll_add_cb_each_count [OF add, of x] by (simp add: same armed_def)
  have arm: "armed x (c\<lparr>resv := (resv c)\<lparr>fences := fs\<rparr>\<rparr>)
               = count_list (concat (map (\<lambda>p. cb_list (fst p)) fs)) x"
    for x and c :: "('x, 'y) dma_buf"
    by (simp add: armed_def)
  consider (skip) "events AND ?k = 0"
    | (busy) "events AND ?k \<noteq> 0" "slot_active dcb b \<noteq> 0"
    | (idle) "events AND ?k \<noteq> 0" "slot_active dcb b = 0"
    by blast
  then have all: "(\<forall>d. d \<noteq> dcb \<longrightarrow> armed d b' = armed d b \<and> slot_active d b' = slot_active d b)
      \<and> (ev' = events \<or> ev' = events AND NOT ?k)
      \<and> (slot_active dcb b \<noteq> 0 \<longrightarrow> ev' AND ?k = 0 \<and> b' = b)
      \<and> (slot_active dcb b = 0 \<longrightarrow>
           (armed dcb b' = armed dcb b \<and> slot_active dcb b' = 0)
           \<or> (armed dcb b' = Suc (armed dcb b) \<and> slot_active dcb b' = ?k
               \<and> ev' AND ?k = 0))"
  proof cases
    case skip
    with run show ?thesis
      by (auto simp: dma_buf_poll_slot_def)
  next
    case busy
    with run show ?thesis
      by (auto simp: dma_buf_poll_slot_def and_not_and_self)
  next
    case idle
    with run add show ?thesis
      by (cases queued)
         (auto simp: dma_buf_poll_slot_def dma_buf_poll_add_cb_def Let_def arm cnt
            and_not_and_self)
  qed
  from all show "d \<noteq> dcb \<Longrightarrow> armed d b' = armed d b \<and> slot_active d b' = slot_active d b"
    by blast
  from all show "ev' = events \<or> ev' = events AND NOT (slot_mask dcb)" by blast
  from all show "slot_active dcb b \<noteq> 0 \<Longrightarrow> ev' AND slot_mask dcb = 0 \<and> b' = b" by blast
  from all show "slot_active dcb b = 0 \<Longrightarrow>
           (armed dcb b' = armed dcb b \<and> slot_active dcb b' = 0)
           \<or> (armed dcb b' = Suc (armed dcb b) \<and> slot_active dcb b' = slot_mask dcb
               \<and> ev' AND slot_mask dcb = 0)" by blast
qed

lemma poll_slot_consistent:
  assumes "dma_buf_poll_slot dcb (slot_mask dcb) w events b = (ev', b')"
    and "poll_consistent b"
  shows "poll_consistent b'"
  unfolding poll_consistent_def
proof
  fix d
  from assms(2) have c: "armed x b = (if slot_active x b = 0 then 0 else 1)" for x
    by (simp add: poll_consistent_def)
  show "armed d b' = (if slot_active d b' = 0 then 0 else 1)"
  proof (cases "d = dcb")
    case False
    with poll_slot_effect(1) [OF assms(1), of d] c [of d] show ?thesis by simp
  next
    case True
    show ?thesis
    proof (cases "slot_active dcb b = 0")
      case False
      with poll_slot_effect(3) [OF assms(1)] c [of dcb] True show ?thesis by simp
    next
      case z: True
      with poll_slot_effect(4) [OF assms(1)] c [of dcb] True slot_mask_nonzero [of dcb]
      show ?thesis by auto
    qed
  qed
qed

lemma poll_effect:
  fixes b :: "('x, 'y) dma_buf"
  assumes run: "dma_buf_poll (Some b) requested = (ev, r)"
  shows "\<exists>b'. r = Some b'
           \<and> (poll_consistent b \<longrightarrow> poll_consistent b')
           \<and> (slot_active dcb b \<noteq> 0 \<longrightarrow>
                 ev AND slot_mask dcb = 0 \<and> armed dcb b' = armed dcb b
                 \<and> slot_active dcb b' = slot_active dcb b)"
proof (cases "requested AND (EPOLLIN OR EPOLLOUT) = 0")
  case True
  with run show ?thesis by (auto simp: dma_buf_poll_def)
next
  case False
  let ?e = "requested AND (EPOLLIN OR EPOLLOUT)"
  obtain ev1 b1 where out: "dma_buf_poll_slot CB_OUT (slot_mask CB_OUT) True ?e b = (ev1, b1)"
    by (cases "dma_buf_poll_slot CB_OUT (slot_mask CB_OUT) True ?e b")
  obtain ev2 b2 where inp: "dma_buf_poll_slot CB_IN (slot_mask CB_IN) False ev1 b1 = (ev2, b2)"
    by (cases "dma_buf_poll_slot CB_IN (slot_mask CB_IN) False ev1 b1")
  from run False out inp have res: "ev = ev2" "r = Some b2"
    by (auto simp: dma_buf_poll_def Let_def slot_mask_def)
  have cons: "poll_consistent b \<longrightarrow> poll_consistent b2"
    using poll_slot_consistent [OF out] poll_slot_consistent [OF inp] by blast
  have "slot_active dcb b \<noteq> 0 \<longrightarrow>
          ev2 AND slot_mask dcb = 0 \<and> armed dcb b2 = armed dcb b
          \<and> slot_active dcb b2 = slot_active dcb b"
  proof (cases dcb)
    case CB_OUT
    show ?thesis
    proof
      assume a: "slot_active dcb b \<noteq> 0"
      with poll_slot_effect(3) [OF out] CB_OUT
      have 1: "ev1 AND slot_mask CB_OUT = 0" "b1 = b" by auto
      from poll_slot_effect(2) [OF inp] 1(1)
      have "ev2 AND slot_mask CB_OUT = 0" by (auto simp: and_not_and_other)
      with poll_slot_effect(1) [OF inp, of CB_OUT] 1(2) CB_OUT
      show "ev2 AND slot_mask dcb = 0 \<and> armed dcb b2 = armed dcb b
          \<and> slot_active dcb b2 = slot_active dcb b" by simp
    qed
  next
    case CB_IN
    show ?thesis
    proof
      assume a: "slot_active dcb b \<noteq> 0"
      from poll_slot_effect(1) [OF out, of CB_IN]
      have 1: "armed CB_IN b1 = armed CB_IN b" "slot_active CB_IN b1 = slot_active CB_IN b"
        by simp_all
      with a CB_IN have "slot_active CB_IN b1 \<noteq> 0" by simp
      from poll_slot_effect(3) [OF inp this] 1 CB_IN
      show "ev2 AND slot_mask dcb = 0 \<and> armed dcb b2 = armed dcb b
          \<and> slot_active dcb b2 = slot_active dcb b" by simp
    qed
  qed
  with res cons show ?thesis by simp
qed

lemma buf_step_consistent:
  assumes "poll_consistent b"
  shows "poll_consistent (buf_step st b)"
proof (cases st)
  case (Poll requested)
  obtain ev r where run: "dma_buf_poll (Some b) requested = (ev, r)"
    by (cases "dma_buf_poll (Some b) requested")
  from poll_effect [OF run, of CB_IN] assms Poll run show ?thesis
    by (auto simp: buf_step_def)
next
  case (Fence_signals k)
  with assms show ?thesis by (simp add: buf_step_def fences_signal_consistent)
next
  case (Usage_signals q)
  with assms show ?thesis by (simp add: buf_step_def fences_signal_consistent)
next
  case (Fence_added k u)
  with assms show ?thesis
    by (simp add: buf_step_def poll_consistent_def armed_def dma_resv_add_fence_def)
qed

lemma steps_consistent:
  "poll_consistent b \<Longrightarrow> poll_consistent (fold buf_step steps b)"
  by (induction steps arbitrary: b) (simp_all add: buf_step_consistent)

text \<open>A buffer that \<open>dma_buf_export\<close> creates, with a reservation object of its
  own or with one whose fences carry none of its callbacks, has both slots idle and no
  callback armed.\<close>

lemma export_poll_consistent:
  assumes "dma_buf_export env g exp_info = (PTR b, g', evs)"
    and "\<forall>obj. info_resv exp_info = Some obj \<longrightarrow> (\<forall>p \<in> set (fences obj). cb_list (fst p) = [])"
  shows "poll_consistent b"
proof -
  from assms(1) have act: "cb_in_active b = 0" "cb_out_active b = 0"
    and r: "resv b = (case info_resv exp_info of None \<Rightarrow> dma_resv_init | Some obj \<Rightarrow> obj)"
    by (auto simp: dma_buf_export_def Let_def
        split: option.splits if_splits prod.splits sum.splits)
  from r assms(2) have "\<forall>p \<in> set (fences (resv b)). cb_list (fst p) = []"
    by (auto simp: dma_resv_init_def split: option.splits)
  then have "concat (map (\<lambda>p. cb_list (fst p)) (fences (resv b))) = []"
    by simp
  with act show ?thesis
    by (simp add: poll_consistent_def armed_def slot_active_def split: poll_slot.splits)
qed

text \<open>
  C4. Take a buffer in which each slot is marked active exactly when one callback of
  that slot is armed on a fence, as in a newly exported buffer, where both slots are idle.
  After any sequence of readiness requests, fences signalling and fences being added,
  this still holds, so at most one callback per direction is armed at any instant. A
  readiness request that finds a direction's slot active reports that direction as not
  ready and leaves the slot and its one armed callback as they are.
\<close>

theorem poll_one_callback_per_slot:
  fixes b0 :: "('x, 'y) dma_buf"
  assumes "poll_consistent b0"
  shows "(let b = fold buf_step steps b0;
              res = dma_buf_poll (Some b) requested
          in poll_consistent b
           \<and> armed dcb b \<le> 1
           \<and> (slot_active dcb b \<noteq> 0 \<longrightarrow>
                 armed dcb b = 1
                 \<and> fst res AND slot_mask dcb = 0
                 \<and> (\<exists>b'. snd res = Some b' \<and> armed dcb b' = 1
                          \<and> slot_active dcb b' = slot_active dcb b)))"
proof -
  let ?b = "fold buf_step steps b0"
  have c: "poll_consistent ?b" using assms by (rule steps_consistent)
  then have a: "armed dcb ?b = (if slot_active dcb ?b = 0 then 0 else 1)"
    by (simp add: poll_consistent_def)
  obtain ev r where run: "dma_buf_poll (Some ?b) requested = (ev, r)"
    by (cases "dma_buf_poll (Some ?b) requested")
  from poll_effect [OF run, of dcb] c a run show ?thesis
    by (auto simp: Let_def)
qed

lemma demo_busy_consistent: "poll_consistent demo_busy_buf"
  by (auto simp: poll_consistent_def armed_def slot_active_def demo_busy_buf_def demo_buf_def
      demo_fences_def split: poll_slot.splits)

lemma demo_poll_arms:
  "dma_buf_poll (Some demo_busy_buf) EPOLLOUT = (0, Some demo_armed_buf)"
  by (simp add: dma_buf_poll_def dma_buf_poll_slot_def dma_buf_poll_add_cb_def
      dma_fence_add_callback_def dma_resv_usage_rw_def usage_covers_def slot_active_def
      set_slot_active_def get_file_def demo_busy_buf_def demo_armed_buf_def demo_buf_def
      demo_fences_def EPOLLIN_def EPOLLOUT_def Let_def)

lemma demo_poll_busy:
  "dma_buf_poll (Some demo_armed_buf) EPOLLOUT = (0, Some demo_armed_buf)"
  by (simp add: dma_buf_poll_def dma_buf_poll_slot_def slot_active_def
      demo_armed_buf_def demo_buf_def EPOLLIN_def EPOLLOUT_def Let_def)

lemma demo_armed_fields:
  "armed CB_OUT demo_armed_buf = 1" "slot_active CB_OUT demo_armed_buf = EPOLLOUT"
  "EPOLLOUT \<noteq> 0" "slot_mask CB_OUT = EPOLLOUT"
  by (simp_all add: armed_def slot_active_def slot_mask_def demo_armed_buf_def demo_buf_def
      EPOLLOUT_def)

lemma demo_signal_fires:
  "armed CB_OUT (buf_step (Fence_signals 1) demo_armed_buf) = 0"
  "slot_active CB_OUT (buf_step (Fence_signals 1) demo_armed_buf) = 0"
  "f_count (buf_file (buf_step (Fence_signals 1) demo_armed_buf)) = 1"
  by (simp_all add: buf_step_def fences_signal_def dma_buf_poll_cb_def fput_def
      set_slot_active_def armed_def slot_active_def demo_armed_buf_def demo_buf_def)

theorem poll_one_callback_per_slot_witness:
  "poll_consistent demo_busy_buf
   \<and> fold buf_step [Poll EPOLLOUT] demo_busy_buf = demo_armed_buf
   \<and> armed CB_OUT demo_armed_buf = 1
   \<and> slot_active CB_OUT demo_armed_buf = EPOLLOUT
   \<and> dma_buf_poll (Some demo_armed_buf) EPOLLOUT = (0, Some demo_armed_buf)
   \<and> armed CB_OUT (fold buf_step [Poll EPOLLOUT, Poll EPOLLOUT, Fence_signals 1]
        demo_busy_buf) = 0"
  using poll_one_callback_per_slot [OF demo_busy_consistent, of "[Poll EPOLLOUT]" EPOLLOUT
      CB_OUT]
    demo_busy_consistent demo_poll_arms demo_poll_busy demo_armed_fields demo_signal_fires
  by (simp add: buf_step_def)

end
